theory Spec2Isabelle
  imports
    Main
    "HOL-Library.AList"
    "HOL-Library.Char_ord"
    "HOL-Library.List_Lexorder"
    "HOL-Library.Multiset"
begin

section \<open>Gazelle package aggregation and expression synthesis\<close>

text \<open>
  The development embeds \<^verbatim>\<open>go/tools/gazelle/packages/package.go\<close> (the records
  \<^verbatim>\<open>Package\<close>, \<^verbatim>\<open>Target\<close>, \<^verbatim>\<open>PlatformStrings\<close> and their methods) and
  \<^verbatim>\<open>newValue\<close> of package \<^verbatim>\<open>rules\<close>.

  Conventions.
  \<^item> A Go \<^verbatim>\<open>string\<close> is a \<^typ>\<open>string\<close>; Go compares strings bytewise and
    lexicographically, which is the order of \<^verbatim>\<open>List_Lexorder\<close> over \<^verbatim>\<open>Char_ord\<close>.
  \<^item> A Go slice is a list. The source never shares a backing array between two of the
    slices it keeps (\<^verbatim>\<open>append\<close> to a nil slice allocates), so the in-place loops of
    \<^verbatim>\<open>remove\<close> and \<^verbatim>\<open>uniq\<close> are modelled by the lists they return.
  \<^item> A Go map is an association list whose keys are pairwise distinct. The order of the
    list stands for the order in which \<^verbatim>\<open>range\<close> (or \<^verbatim>\<open>reflect.Value.MapKeys\<close>)
    happens to enumerate the map, which Go leaves unspecified; a statement about a Go map
    is therefore made for every list with distinct keys. A nil map is \<^term>\<open>None\<close>.
  \<^item> A set of build tags (\<^verbatim>\<open>map[string]bool\<close>, tested for key presence) is a
    \<^typ>\<open>string set\<close>.
  \<^item> A method with a pointer receiver takes the receiver and returns the updated one.
\<close>

subsection \<open>Data model\<close>

text \<open>Modelled from the spec: the type of extension categories is declared in
  \<^verbatim>\<open>fileinfo.go\<close>, which is not among the sources. These are the categories of section
  4.3 of the specification, under the names that \<^verbatim>\<open>Package.addFile\<close> and the tests of
  \<^verbatim>\<open>fileNameInfo\<close> use.\<close>

datatype ext =
  ignoredExt | unsupportedExt | goExt | cExt | hExt | sExt | csExt | protoExt

text \<open>Modelled from the spec: \<^verbatim>\<open>taggedOpts\<close> is declared in \<^verbatim>\<open>fileinfo.go\<close>,
  which is not among the sources. It is the \<^verbatim>\<open>TaggedOpt\<close> of section 3, a tag
  expression (possibly empty) and the text of the flags, with the field names that
  \<^verbatim>\<open>package.go\<close> reads.\<close>

record taggedOpts =
  tags :: string
  opts :: string

text \<open>Modelled from the spec: \<^verbatim>\<open>fileInfo\<close> is declared in \<^verbatim>\<open>fileinfo.go\<close>,
  which is not among the sources. It is the \<^verbatim>\<open>FileRecord\<close> of section 3, with the
  field names that \<^verbatim>\<open>package.go\<close> and the tests read; the empty string stands for an
  absent \<^verbatim>\<open>goos\<close> or \<^verbatim>\<open>goarch\<close>.\<close>

record fileInfo =
  path :: string
  name :: string
  category :: ext
  isTest :: bool
  isXTest :: bool
  isCgo :: bool
  packageName :: string
  "imports" :: "string list"
  goos :: string
  goarch :: string
  tags :: "string list"
  copts :: "taggedOpts list"
  clinkopts :: "taggedOpts list"

type_synonym 'v gomap = "(string \<times> 'v) list"

record PlatformStrings =
  Generic :: "string list"
  Platform :: "string list gomap option"

record Target =
  Sources :: PlatformStrings
  Imports :: PlatformStrings
  COpts :: PlatformStrings
  CLinkOpts :: PlatformStrings

record Package =
  Name :: string
  Dir :: string
  Rel :: string
  Library :: Target
  CgoLibrary :: Target
  Binary :: Target
  Test :: Target
  XTest :: Target
  Protos :: "string list"
  HasPbGo :: bool
  HasTestdata :: bool

text \<open>Modelled from the spec: \<^verbatim>\<open>config.Config\<close> is declared in package
  \<^verbatim>\<open>config\<close>, which is not among the sources. These are the two fields that
  \<^verbatim>\<open>package.go\<close> reads: \<^verbatim>\<open>GenericTags\<close>, a tag set, and \<^verbatim>\<open>Platforms\<close>, the
  \<^verbatim>\<open>PlatformTable\<close> of section 3, a map from platform name to satisfied-tag set.\<close>

record Config =
  GenericTags :: "string set"
  Platforms :: "string set gomap"

subsection \<open>Go primitives\<close>

text \<open>\<^verbatim>\<open>strings.HasSuffix(s, suffix)\<close>.\<close>

definition HasSuffix :: "string \<Rightarrow> string \<Rightarrow> bool" where
  "HasSuffix s suffix \<longleftrightarrow>
     length suffix \<le> length s \<and> drop (length s - length suffix) s = suffix"

text \<open>\<^verbatim>\<open>strings.HasPrefix(s, prefix)\<close>.\<close>

definition HasPrefix :: "string \<Rightarrow> string \<Rightarrow> bool" where
  "HasPrefix s prefix \<longleftrightarrow> length prefix \<le> length s \<and> take (length prefix) s = prefix"

text \<open>\<^verbatim>\<open>strings.Split(s, sep)\<close> for a one-byte separator: the pieces between the
  separators, empty pieces kept, one empty piece for the empty string.\<close>

fun Split :: "string \<Rightarrow> char \<Rightarrow> string list" where
  "Split [] sep = [[]]"
| "Split (x # xs) sep =
     (if x = sep then [] # Split xs sep
      else (case Split xs sep of
              [] \<Rightarrow> [[x]]
            | w # ws \<Rightarrow> (x # w) # ws))"

text \<open>\<^verbatim>\<open>strings.Fields(s)\<close>, for lines whose only white space is the space character:
  the non-empty pieces between spaces.\<close>

definition Fields :: "string \<Rightarrow> string list" where
  "Fields s = filter (\<lambda>w. w \<noteq> []) (Split s CHR '' '')"

text \<open>Reading a Go map at a key yields the zero value (the nil slice) when the key is
  absent.\<close>

definition mapIndex :: "string list gomap \<Rightarrow> string \<Rightarrow> string list" where
  "mapIndex m k = (case map_of m k of None \<Rightarrow> [] | Some ss \<Rightarrow> ss)"

subsection \<open>Build constraints\<close>

text \<open>
  \<^verbatim>\<open>checkTags\<close>, \<^verbatim>\<open>fileInfo.checkConstraints\<close> and \<^verbatim>\<open>fileInfo.hasConstraints\<close>
  are called by \<^verbatim>\<open>package.go\<close> and defined in \<^verbatim>\<open>fileinfo.go\<close>, which is not among
  the sources; only their tests are. They are modelled from section 4.1 of the
  specification, and agree with the tables of \<^verbatim>\<open>TestCheckTags\<close> and
  \<^verbatim>\<open>TestCheckConstraints\<close>. The theorems about \<^verbatim>\<open>package.go\<close> hold for whatever these
  functions compute; their definitions are unfolded for the sample inputs only.
\<close>

text \<open>Modelled from the spec: the ``minimum-version'' pattern of section 4.1, whose
  definition (\<^verbatim>\<open>isReleaseTag\<close> in \<^verbatim>\<open>fileinfo.go\<close>) is missing: \<^verbatim>\<open>go\<close>, one digit, a
  dot, digits, as in the release tags of \<^verbatim>\<open>TestCheckTags\<close>.\<close>

definition isDigit :: "char \<Rightarrow> bool" where
  "isDigit c \<longleftrightarrow> CHR ''0'' \<le> c \<and> c \<le> CHR ''9''"

definition isReleaseTag :: "string \<Rightarrow> bool" where
  "isReleaseTag tag \<longleftrightarrow>
     5 \<le> length tag \<and> HasPrefix tag ''go'' \<and> isDigit (tag ! 2) \<and> tag ! 3 = CHR ''.''
     \<and> list_all isDigit (drop 4 tag)"

text \<open>Modelled from the spec: the veto of section 4.1, missing with \<^verbatim>\<open>checkTags\<close>: a
  factor with two leading negations.\<close>

definition badSyntax :: "string \<Rightarrow> bool" where
  "badSyntax tag \<longleftrightarrow> HasPrefix tag ''!!''"

text \<open>Modelled from the spec: one factor of a tag line, missing with \<^verbatim>\<open>checkTags\<close>. A
  factor may be negated with a leading \<^verbatim>\<open>!\<close>; a release tag is true, negated or not;
  otherwise the factor holds by membership, or by absence when negated.\<close>

definition checkTag :: "string \<Rightarrow> string set \<Rightarrow> bool" where
  "checkTag tag satisfied =
     (let neg = HasPrefix tag ''!'';
          t = (if neg then drop 1 tag else tag)
      in isReleaseTag t \<or> (neg \<noteq> (t \<in> satisfied)))"

text \<open>Modelled from the spec: one term of a tag line, missing with \<^verbatim>\<open>checkTags\<close>: the
  comma-separated factors all hold.\<close>

definition checkGroup :: "string \<Rightarrow> string set \<Rightarrow> bool" where
  "checkGroup grp satisfied = list_all (\<lambda>tag. checkTag tag satisfied) (Split grp CHR '','')"

text \<open>Modelled from the spec: \<^verbatim>\<open>checkTags(line, satisfied)\<close> of \<^verbatim>\<open>fileinfo.go\<close>, which
  is missing. A doubly negated factor anywhere makes the line false; otherwise the line is
  true iff one of its space-separated terms is; the empty line is false.\<close>

definition checkTags :: "string \<Rightarrow> string set \<Rightarrow> bool" where
  "checkTags line satisfied \<longleftrightarrow>
     \<not> list_ex (\<lambda>grp. list_ex badSyntax (Split grp CHR '','')) (Fields line)
     \<and> list_ex (\<lambda>grp. checkGroup grp satisfied) (Fields line)"

text \<open>Modelled from the spec: \<^verbatim>\<open>fileInfo.hasConstraints\<close> of \<^verbatim>\<open>fileinfo.go\<close>, which is
  missing. A file carries a platform constraint when \<^verbatim>\<open>goos\<close>, \<^verbatim>\<open>goarch\<close> or a tag
  line is present, the three things \<^verbatim>\<open>checkConstraints\<close> tests.\<close>

definition hasConstraints :: "fileInfo \<Rightarrow> bool" where
  "hasConstraints info \<longleftrightarrow> goos info \<noteq> [] \<or> goarch info \<noteq> [] \<or> fileInfo.tags info \<noteq> []"

text \<open>Modelled from the spec: \<^verbatim>\<open>fileInfo.checkConstraints\<close> of \<^verbatim>\<open>fileinfo.go\<close>, which
  is missing: true iff \<^verbatim>\<open>goos\<close> is absent or satisfied, \<^verbatim>\<open>goarch\<close> is absent or
  satisfied, and every tag line evaluates true.\<close>

definition checkConstraints :: "fileInfo \<Rightarrow> string set \<Rightarrow> bool" where
  "checkConstraints info satisfied \<longleftrightarrow>
     (goos info = [] \<or> goos info \<in> satisfied)
     \<and> (goarch info = [] \<or> goarch info \<in> satisfied)
     \<and> list_all (\<lambda>line. checkTags line satisfied) (fileInfo.tags info)"

subsection \<open>Accumulating strings: \<^verbatim>\<open>PlatformStrings\<close>\<close>

text \<open>\<^verbatim>\<open>addGenericStrings\<close> appends to the generic list.\<close>

definition addGenericStrings :: "string list \<Rightarrow> PlatformStrings \<Rightarrow> PlatformStrings" where
  "addGenericStrings ss ps = ps\<lparr>Generic := Generic ps @ ss\<rparr>"

text \<open>\<^verbatim>\<open>addPlatformStrings\<close>: the map is made when it is nil, then the strings are
  appended to the entry of the platform \<open>nm\<close> (which is created, possibly empty, when absent).\<close>

definition addPlatformStrings :: "string \<Rightarrow> string list \<Rightarrow> PlatformStrings \<Rightarrow> PlatformStrings" where
  "addPlatformStrings nm ss ps =
     (let m = (case Platform ps of None \<Rightarrow> [] | Some m \<Rightarrow> m)
      in ps\<lparr>Platform := Some (AList.update nm (mapIndex m nm @ ss) m)\<rparr>)"

text \<open>\<^verbatim>\<open>addGenericOpts\<close>. The inner loop ranges over the platform table; its body is
  the statement pair of \<^verbatim>\<open>addPlatformStrings\<close> with the single string \<^verbatim>\<open>t.opts\<close>. An
  option without tags goes to the generic list and skips the inner loop.\<close>

definition addGenericOpt :: "string set gomap \<Rightarrow> taggedOpts \<Rightarrow> PlatformStrings \<Rightarrow> PlatformStrings" where
  "addGenericOpt platforms t ps =
     (if taggedOpts.tags t = [] then ps\<lparr>Generic := Generic ps @ [opts t]\<rparr>
      else fold (\<lambda>(nm, tgs) ps.
                   if checkTags (taggedOpts.tags t) tgs
                   then addPlatformStrings nm [opts t] ps else ps)
             platforms ps)"

definition addGenericOpts :: "string set gomap \<Rightarrow> taggedOpts list \<Rightarrow> PlatformStrings \<Rightarrow> PlatformStrings" where
  "addGenericOpts platforms os ps = fold (addGenericOpt platforms) os ps"

text \<open>\<^verbatim>\<open>addTaggedOpts\<close>: the options without tags, and those whose tags hold for
  the given platform, are appended to the entry of that platform.\<close>

definition addTaggedOpts :: "string \<Rightarrow> taggedOpts list \<Rightarrow> string set \<Rightarrow> PlatformStrings \<Rightarrow> PlatformStrings" where
  "addTaggedOpts nm os tgs ps =
     fold (\<lambda>t ps. if taggedOpts.tags t = [] \<or> checkTags (taggedOpts.tags t) tgs
                  then addPlatformStrings nm [opts t] ps else ps)
       os ps"

subsection \<open>\<^verbatim>\<open>Target.addFile\<close>\<close>

definition addFilePlatform :: "fileInfo \<Rightarrow> string \<times> string set \<Rightarrow> Target \<Rightarrow> Target" where
  "addFilePlatform info = (\<lambda>(nm, tgs) t.
     if checkConstraints info tgs then
       t\<lparr>Sources := addPlatformStrings nm [name info] (Sources t),
         Imports := addPlatformStrings nm (imports info) (Imports t),
         COpts := addTaggedOpts nm (copts info) tgs (COpts t),
         CLinkOpts := addTaggedOpts nm (clinkopts info) tgs (CLinkOpts t)\<rparr>
     else t)"

definition Target_addFile :: "Config \<Rightarrow> fileInfo \<Rightarrow> Target \<Rightarrow> Target" where
  "Target_addFile c info t =
     (if \<not> hasConstraints info \<or> checkConstraints info (GenericTags c) then
        t\<lparr>Sources := addGenericStrings [name info] (Sources t),
          Imports := addGenericStrings (imports info) (Imports t),
          COpts := addGenericOpts (Platforms c) (copts info) (COpts t),
          CLinkOpts := addGenericOpts (Platforms c) (clinkopts info) (CLinkOpts t)\<rparr>
      else fold (addFilePlatform info) (Platforms c) t)"

subsection \<open>\<^verbatim>\<open>Package.addFile\<close>\<close>

text \<open>The statement after the \<^verbatim>\<open>switch\<close>: a name ending in \<^verbatim>\<open>.pb.go\<close> sets
  \<^verbatim>\<open>HasPbGo\<close>.\<close>

definition markPbGo :: "fileInfo \<Rightarrow> Package \<Rightarrow> Package" where
  "markPbGo info p = (if HasSuffix (name info) ''.pb.go'' then p\<lparr>HasPbGo := True\<rparr> else p)"

definition cgoInTest :: "fileInfo \<Rightarrow> string" where
  "cgoInTest info = path info @ '': use of cgo in test not supported''"

text \<open>\<^verbatim>\<open>Package.addFile\<close> returns the package as the call leaves it together with the
  error (\<^term>\<open>None\<close> for \<^verbatim>\<open>nil\<close>). The cases of the \<^verbatim>\<open>switch\<close> are tried in the order of
  the source; the three \<^verbatim>\<open>return\<close> statements inside it leave before the statement that
  sets \<^verbatim>\<open>HasPbGo\<close>.\<close>

definition Package_addFile :: "Config \<Rightarrow> fileInfo \<Rightarrow> bool \<Rightarrow> Package \<Rightarrow> Package \<times> string option" where
  "Package_addFile c info cgo p =
     (if category info = ignoredExt \<or> category info = unsupportedExt then (p, None)
      else if isXTest info then
        (if isCgo info then (p, Some (cgoInTest info))
         else (markPbGo info (p\<lparr>XTest := Target_addFile c info (XTest p)\<rparr>), None))
      else if isTest info then
        (if isCgo info then (p, Some (cgoInTest info))
         else (markPbGo info (p\<lparr>Test := Target_addFile c info (Test p)\<rparr>), None))
      else if isCgo info \<or> (cgo \<and> (category info = cExt \<or> category info = hExt \<or> category info = csExt)) then
        (markPbGo info (p\<lparr>CgoLibrary := Target_addFile c info (CgoLibrary p)\<rparr>), None)
      else if category info = goExt \<or> category info = sExt \<or> category info = hExt then
        (markPbGo info (p\<lparr>Library := Target_addFile c info (Library p)\<rparr>), None)
      else if category info = protoExt then
        (markPbGo info (p\<lparr>Protos := Protos p @ [name info]\<rparr>), None)
      else (markPbGo info p, None))"

text \<open>The zero values of the records.\<close>

definition emptyStrings :: PlatformStrings where
  "emptyStrings = \<lparr>Generic = [], Platform = None\<rparr>"

definition emptyTarget :: Target where
  "emptyTarget = \<lparr>Sources = emptyStrings, Imports = emptyStrings,
                   COpts = emptyStrings, CLinkOpts = emptyStrings\<rparr>"

definition emptyPackage :: Package where
  "emptyPackage = \<lparr>Name = [], Dir = [], Rel = [],
                    Library = emptyTarget, CgoLibrary = emptyTarget, Binary = emptyTarget,
                    Test = emptyTarget, XTest = emptyTarget,
                    Protos = [], HasPbGo = False, HasTestdata = False\<rparr>"

definition emptyInfo :: fileInfo where
  "emptyInfo = \<lparr>path = [], name = [], category = ignoredExt, isTest = False, isXTest = False,
                 isCgo = False, packageName = [], imports = [], goos = [], goarch = [],
                 tags = [], copts = [], clinkopts = []\<rparr>"

subsection \<open>Normalisation: \<^verbatim>\<open>remove\<close>, \<^verbatim>\<open>uniq\<close>, \<^verbatim>\<open>Clean\<close>\<close>

text \<open>\<^verbatim>\<open>remove\<close> keeps, in order, the strings that the set does not hold.\<close>

fun remove :: "string list \<Rightarrow> string set \<Rightarrow> string list" where
  "remove [] rm = []"
| "remove (s # ss) rm = (if s \<notin> rm then s # remove ss rm else remove ss rm)"

text \<open>\<^verbatim>\<open>uniq\<close> returns a list of at most one string as it is; otherwise it keeps the
  first string and then every string that differs from the one before it (the loop over
  \<^verbatim>\<open>ss[1:]\<close> with the variable \<^verbatim>\<open>prev\<close>).\<close>

fun uniqLoop :: "string \<Rightarrow> string list \<Rightarrow> string list" where
  "uniqLoop prev [] = []"
| "uniqLoop prev (s # ss) = (if s \<noteq> prev then s # uniqLoop s ss else uniqLoop prev ss)"

definition uniq :: "string list \<Rightarrow> string list" where
  "uniq ss = (if length ss \<le> 1 then ss else hd ss # uniqLoop (hd ss) (tl ss))"

text \<open>One round of the loop of \<^verbatim>\<open>Clean\<close> over the platform map: the entry \<open>(n, ss)\<close>
  that \<^verbatim>\<open>range\<close> hands out is filtered; the key is deleted from the map when nothing is
  left, and is set to the sorted, de-duplicated rest otherwise. \<^verbatim>\<open>sort.Strings\<close> is
  \<^term>\<open>sort\<close> over the bytewise lexicographic order.\<close>

definition cleanEntry :: "string set \<Rightarrow> string \<times> string list \<Rightarrow> string list gomap \<Rightarrow> string list gomap" where
  "cleanEntry genSet = (\<lambda>(n, ss) m.
     let ss' = remove ss genSet
     in if length ss' = 0 then AList.delete n m
        else AList.update n (uniq (sort ss')) m)"

definition Clean :: "PlatformStrings \<Rightarrow> PlatformStrings" where
  "Clean ps =
     (let g = uniq (sort (Generic ps));
          genSet = set g
      in case Platform ps of
           None \<Rightarrow> ps\<lparr>Generic := g\<rparr>
         | Some m \<Rightarrow>
             (let m' = fold (cleanEntry genSet) m m
              in ps\<lparr>Generic := g, Platform := (if length m' = 0 then None else Some m')\<rparr>))"

subsection \<open>\<^verbatim>\<open>PlatformStrings.Map\<close>\<close>

text \<open>The transform \<open>f\<close> returns \<^term>\<open>Inl err\<close> for a non-nil error and \<^term>\<open>Inr r\<close>
  otherwise. The two loops thread the result under construction and the error list.\<close>

definition mapGeneric :: "(string \<Rightarrow> 'e + string) \<Rightarrow> string \<Rightarrow> string list \<times> 'e list \<Rightarrow> string list \<times> 'e list" where
  "mapGeneric f s = (\<lambda>(res, errors).
     case f s of
       Inl err \<Rightarrow> (res, errors @ [err])
     | Inr r \<Rightarrow> (res @ [r], errors))"

definition mapPlatformItem :: "(string \<Rightarrow> 'e + string) \<Rightarrow> string \<Rightarrow> string \<Rightarrow> string list gomap \<times> 'e list \<Rightarrow> string list gomap \<times> 'e list" where
  "mapPlatformItem f n s = (\<lambda>(res, errors).
     case f s of
       Inl err \<Rightarrow> (res, errors @ [err])
     | Inr r \<Rightarrow> (AList.update n (mapIndex res n @ [r]) res, errors))"

definition mapPlatform :: "(string \<Rightarrow> 'e + string) \<Rightarrow> string \<times> string list \<Rightarrow> string list gomap \<times> 'e list \<Rightarrow> string list gomap \<times> 'e list" where
  "mapPlatform f = (\<lambda>(n, ss) (res, errors).
     fold (mapPlatformItem f n) ss (AList.update n [] res, errors))"

definition PlatformStrings_Map :: "(string \<Rightarrow> 'e + string) \<Rightarrow> PlatformStrings \<Rightarrow> PlatformStrings \<times> 'e list" where
  "PlatformStrings_Map f ps =
     (let (g, errors) = fold (mapGeneric f) (Generic ps) ([], [])
      in case Platform ps of
           None \<Rightarrow> (\<lparr>Generic = g, Platform = None\<rparr>, errors)
         | Some m \<Rightarrow>
             (let (res, errors') = fold (mapPlatform f) m ([], errors)
              in (\<lparr>Generic = g, Platform = Some res\<rparr>, errors')))"

subsection \<open>Aggregating a directory\<close>

text \<open>
  The loop that feeds the files of a directory to \<^verbatim>\<open>Package.addFile\<close> and the pass that
  normalises a package are in the caller of \<^verbatim>\<open>package.go\<close>, which is not among the
  sources.
\<close>

text \<open>Modelled from the spec: the caller's loop over the files of a directory, which is
  missing. By section 5 a file whose \<^verbatim>\<open>addFile\<close> fails is reported, contributes nothing,
  and the remaining files are still processed.\<close>

definition addFiles :: "Config \<Rightarrow> bool \<Rightarrow> fileInfo list \<Rightarrow> Package \<Rightarrow> Package" where
  "addFiles c cgo infos p = fold (\<lambda>info p. fst (Package_addFile c info cgo p)) infos p"

text \<open>Modelled from the spec: the caller's normalisation of a target, which is missing. By
  section 4.4 \<^verbatim>\<open>Clean\<close> runs on every \<^verbatim>\<open>PlatformStrings\<close> before synthesis.\<close>

definition Target_Clean :: "Target \<Rightarrow> Target" where
  "Target_Clean t = \<lparr>Sources = Clean (Sources t), Imports = Clean (Imports t),
                     COpts = Clean (COpts t), CLinkOpts = Clean (CLinkOpts t)\<rparr>"

text \<open>Modelled from the spec: the caller's normalisation of a package, which is missing:
  the five targets are normalised once all files are in; the other fields are left as they
  are.\<close>

definition Package_Clean :: "Package \<Rightarrow> Package" where
  "Package_Clean p = p\<lparr>Library := Target_Clean (Library p),
                       CgoLibrary := Target_Clean (CgoLibrary p),
                       Binary := Target_Clean (Binary p),
                       Test := Target_Clean (Test p),
                       XTest := Target_Clean (XTest p)\<rparr>"

text \<open>Equality of Go values (\<^verbatim>\<open>reflect.DeepEqual\<close>): two maps are equal when they are
  both nil or both not, and hold the same value at every key; the order of the association
  lists does not count.\<close>

definition sameMap :: "string list gomap \<Rightarrow> string list gomap \<Rightarrow> bool" where
  "sameMap m m' \<longleftrightarrow> (\<forall>k \<in> set (map fst m) \<union> set (map fst m'). map_of m k = map_of m' k)"

definition sameStrings :: "PlatformStrings \<Rightarrow> PlatformStrings \<Rightarrow> bool" where
  "sameStrings ps ps' \<longleftrightarrow>
     Generic ps = Generic ps'
     \<and> (case (Platform ps, Platform ps') of
          (None, None) \<Rightarrow> True
        | (Some m, Some m') \<Rightarrow> sameMap m m'
        | _ \<Rightarrow> False)"

definition sameTarget :: "Target \<Rightarrow> Target \<Rightarrow> bool" where
  "sameTarget t t' \<longleftrightarrow>
     sameStrings (Sources t) (Sources t') \<and> sameStrings (Imports t) (Imports t')
     \<and> sameStrings (COpts t) (COpts t') \<and> sameStrings (CLinkOpts t) (CLinkOpts t')"

definition samePackage :: "Package \<Rightarrow> Package \<Rightarrow> bool" where
  "samePackage p p' \<longleftrightarrow>
     Name p = Name p' \<and> Dir p = Dir p' \<and> Rel p = Rel p'
     \<and> sameTarget (Library p) (Library p') \<and> sameTarget (CgoLibrary p) (CgoLibrary p')
     \<and> sameTarget (Binary p) (Binary p') \<and> sameTarget (Test p) (Test p')
     \<and> sameTarget (XTest p) (XTest p')
     \<and> Protos p = Protos p' \<and> HasPbGo p = HasPbGo p' \<and> HasTestdata p = HasTestdata p'"

text \<open>A well-formed Go map has pairwise distinct keys.\<close>

definition wfMap :: "('k \<times> 'v) list \<Rightarrow> bool" where
  "wfMap m \<longleftrightarrow> distinct (map fst m)"

definition wfStrings :: "PlatformStrings \<Rightarrow> bool" where
  "wfStrings ps \<longleftrightarrow> (case Platform ps of None \<Rightarrow> True | Some m \<Rightarrow> wfMap m)"

definition wfTarget :: "Target \<Rightarrow> bool" where
  "wfTarget t \<longleftrightarrow> wfStrings (Sources t) \<and> wfStrings (Imports t)
     \<and> wfStrings (COpts t) \<and> wfStrings (CLinkOpts t)"

definition wfPackage :: "Package \<Rightarrow> bool" where
  "wfPackage p \<longleftrightarrow> wfTarget (Library p) \<and> wfTarget (CgoLibrary p) \<and> wfTarget (Binary p)
     \<and> wfTarget (Test p) \<and> wfTarget (XTest p)"

text \<open>The strings under a platform name, the nil map read like the empty one; and the
  platform names present.\<close>

definition platformGet :: "PlatformStrings \<Rightarrow> string \<Rightarrow> string list" where
  "platformGet ps nm = (case Platform ps of None \<Rightarrow> [] | Some m \<Rightarrow> mapIndex m nm)"

definition platformKeys :: "PlatformStrings \<Rightarrow> string set" where
  "platformKeys ps = (case Platform ps of None \<Rightarrow> {} | Some m \<Rightarrow> set (map fst m))"

subsection \<open>Expression synthesis: \<^verbatim>\<open>newValue\<close>\<close>

text \<open>The expression nodes of the build-file library that \<^verbatim>\<open>newValue\<close> constructs,
  with the fields it sets: a list and a dictionary carry \<^verbatim>\<open>ForceMultiLine\<close>.\<close>

datatype Expr =
    LiteralExpr string
  | StringExpr string
  | ListExpr "Expr list" bool
  | KeyValueExpr Expr Expr
  | DictExpr "Expr list" bool
  | CallExpr Expr "Expr list"
  | BinaryExpr Expr string Expr

record globvalue =
  patterns :: "string list"
  excludes :: "string list"

text \<open>A key of a map as \<^verbatim>\<open>reflect.Value.MapKeys\<close> hands it out: a key of kind
  \<^verbatim>\<open>String\<close> with its string, or a key of any other kind with the name \<open>T\<close> of its type
  and a number that tells the key from the other keys of the map (\<^verbatim>\<open>newValue\<close> reads
  \<open>T\<close> only). \<^verbatim>\<open>rk.String()\<close> is the string of a string key and \<^verbatim>\<open><T Value>\<close> for
  every other key.\<close>

datatype gokey = StringKey string | OtherKey string nat

fun keyString :: "gokey \<Rightarrow> string" where
  "keyString (StringKey s) = s"
| "keyString (OtherKey T n) = ''<'' @ T @ '' Value>''"

text \<open>A map whose keys are strings, as \<^verbatim>\<open>reflect\<close> sees it.\<close>

definition stringKeyed :: "(string \<times> 'v) list \<Rightarrow> (gokey \<times> 'v) list" where
  "stringKeyed m = map (\<lambda>(k, v). (StringKey k, v)) m"

text \<open>The dynamic values \<^verbatim>\<open>newValue\<close> distinguishes by \<^verbatim>\<open>reflect.Kind\<close>: integers,
  floating-point numbers (carried as their \<^verbatim>\<open>%f\<close> rendering, floating-point formatting
  being outside the model), values of type \<^verbatim>\<open>string\<close>, slices and arrays, maps with keys
  of any kind, the two structs it knows, and every other shape, for which it panics.\<close>

datatype val =
    VInt int
  | VFloat string
  | VString string
  | VSlice "val list"
  | VMap "(gokey \<times> val) list"
  | VGlob globvalue
  | VPlatformStrings PlatformStrings
  | VOther

text \<open>\<^verbatim>\<open>fmt.Sprintf("%d", val)\<close>.\<close>

fun digits :: "nat \<Rightarrow> string" where
  "digits n = (if n < 10 then [char_of (48 + n)]
               else digits (n div 10) @ [char_of (48 + n mod 10)])"

declare digits.simps [simp del]

definition fmt_d :: "int \<Rightarrow> string" where
  "fmt_d i = (if i < 0 then CHR ''-'' # digits (nat (- i)) else digits (nat i))"

text \<open>The assignment \<^verbatim>\<open>l.ForceMultiLine = true\<close> behind the type test for a list
  expression. Every node is freshly built by \<^verbatim>\<open>newValue\<close>, so the assignment through
  the pointer changes this node only.\<close>

fun forceMultiLine :: "Expr \<Rightarrow> Expr" where
  "forceMultiLine (ListExpr l b) = ListExpr l True"
| "forceMultiLine e = e"

definition stringsVal :: "string list \<Rightarrow> val" where
  "stringsVal ss = VSlice (map VString ss)"

definition platformVal :: "string list gomap \<Rightarrow> val" where
  "platformVal m = VMap (stringKeyed (map (\<lambda>(k, ss). (k, stringsVal ss)) m))"

definition defaultCase :: Expr where
  "defaultCase = KeyValueExpr (StringExpr ''//conditions:default'') (ListExpr [] False)"

definition selectCall :: "Expr list \<Rightarrow> Expr" where
  "selectCall args = CallExpr (LiteralExpr ''select'') [DictExpr args True]"

fun vsize :: "val \<Rightarrow> nat" where
  "vsize (VSlice vs) = Suc (sum_list (map vsize vs))"
| "vsize (VMap m) = Suc (sum_list (map (\<lambda>kv. vsize (snd kv)) m))"
| "vsize (VGlob g) = 2"
| "vsize (VPlatformStrings ps) = 2 + length (case Platform ps of None \<Rightarrow> [] | Some m \<Rightarrow> m)"
| "vsize v = 0"

text \<open>\<^verbatim>\<open>newValue\<close>; \<^term>\<open>None\<close> is the panic \<^verbatim>\<open>type not supported\<close>. In the map case
  the keys come from \<^verbatim>\<open>MapKeys\<close> in the order of the association list, are sorted by
  \<^verbatim>\<open>sort.Sort(byString(rkeys))\<close>, which compares \<^verbatim>\<open>rk.String()\<close>, and each value is
  read back with \<^verbatim>\<open>MapIndex\<close>. \<^verbatim>\<open>sort.Sort\<close> promises no order among keys with
  equal renderings; the model takes the stable \<^term>\<open>sort_key\<close>. The two agree whenever
  the renderings of the keys are pairwise distinct (the sorted list is then unique), and on
  two keys with equal renderings, which \<^verbatim>\<open>sort.Sort\<close> compares once and does not
  swap.\<close>

function newValue :: "val \<Rightarrow> Expr option" where
  "newValue (VInt i) = Some (LiteralExpr (fmt_d i))"
| "newValue (VFloat s) = Some (LiteralExpr s)"
| "newValue (VString s) = Some (StringExpr s)"
| "newValue (VSlice vs) = map_option (\<lambda>l. ListExpr l False) (those (map newValue vs))"
| "newValue (VMap m) =
     (let rkeys = sort_key keyString (map fst m)
      in map_option (\<lambda>args. selectCall (args @ [defaultCase]))
           (those (map (\<lambda>rk. case map_of m rk of
                                 None \<Rightarrow> None
                               | Some v \<Rightarrow> map_option (\<lambda>e. KeyValueExpr (StringExpr (keyString rk))
                                                          (forceMultiLine e))
                                             (newValue v))
                         rkeys)))"
| "newValue (VGlob g) =
     (case newValue (stringsVal (patterns g)) of
        None \<Rightarrow> None
      | Some patternsValue \<Rightarrow>
          if length (excludes g) > 0 then
            (case newValue (stringsVal (excludes g)) of
               None \<Rightarrow> None
             | Some excludesValue \<Rightarrow>
                 Some (CallExpr (LiteralExpr ''glob'')
                         [patternsValue, KeyValueExpr (StringExpr ''excludes'') excludesValue]))
          else Some (CallExpr (LiteralExpr ''glob'') [patternsValue]))"
| "newValue (VPlatformStrings ps) =
     (case newValue (stringsVal (Generic ps)) of
        None \<Rightarrow> None
      | Some gen \<Rightarrow>
          (case Platform ps of
             None \<Rightarrow> Some gen
           | Some m \<Rightarrow>
               if length m = 0 then Some gen
               else (case newValue (platformVal m) of
                       None \<Rightarrow> None
                     | Some sel \<Rightarrow>
                         if length (Generic ps) = 0 then Some sel
                         else Some (BinaryExpr (forceMultiLine gen) ''+'' sel))))"
| "newValue VOther = None"
  by pat_completeness auto

subsection \<open>Sample inputs\<close>

text \<open>A platform table with two platforms, each with its operating system, its
  architecture and the generic tag \<^verbatim>\<open>gc\<close>, and a few file records.\<close>

definition sampleConfig :: Config where
  "sampleConfig = \<lparr>GenericTags = {''gc''},
     Platforms = [(''linux_amd64'', {''linux'', ''amd64'', ''gc''}),
                  (''darwin_amd64'', {''darwin'', ''amd64'', ''gc''})]\<rparr>"

definition cgoTestFile :: fileInfo where
  "cgoTestFile = emptyInfo\<lparr>path := ''pkg/a_test.go'', name := ''a_test.go'', category := goExt,
                            isTest := True, isCgo := True\<rparr>"

definition ignoredCgoTestFile :: fileInfo where
  "ignoredCgoTestFile = emptyInfo\<lparr>path := ''pkg/a_test.txt'', name := ''a_test.txt'',
                                   category := ignoredExt, isTest := True, isCgo := True\<rparr>"

definition ignoredPbGoFile :: fileInfo where
  "ignoredPbGoFile = emptyInfo\<lparr>path := ''pkg/a.pb.go'', name := ''a.pb.go'',
                                category := ignoredExt\<rparr>"

definition cgoTestPbGoFile :: fileInfo where
  "cgoTestPbGoFile = emptyInfo\<lparr>path := ''pkg/a.pb.go'', name := ''a.pb.go'', category := goExt,
                                isTest := True, isCgo := True\<rparr>"

definition pbGoFile :: fileInfo where
  "pbGoFile = emptyInfo\<lparr>path := ''pkg/a.pb.go'', name := ''a.pb.go'', category := goExt\<rparr>"

definition cFile :: fileInfo where
  "cFile = emptyInfo\<lparr>path := ''pkg/a.c'', name := ''a.c'', category := cExt\<rparr>"

definition sampleStrings :: PlatformStrings where
  "sampleStrings = \<lparr>Generic = [''b'', ''a'', ''b''],
     Platform = Some [(''linux_amd64'', [''c'', ''a'', ''c'']), (''darwin_amd64'', [''a''])]\<rparr>"

definition failOnX :: "string \<Rightarrow> string + string" where
  "failOnX s = (if HasPrefix s ''x'' then Inl (''bad: '' @ s) else Inr (''//'' @ s))"

definition mapSample :: PlatformStrings where
  "mapSample = \<lparr>Generic = [''x1'', ''a'', ''x2''],
     Platform = Some [(''linux_amd64'', [''b'', ''x3'']), (''darwin_amd64'', [''x4''])]\<rparr>"




definition optsFile :: fileInfo where
  "optsFile = emptyInfo\<lparr>path := ''pkg/a.go'', name := ''a.go'', category := goExt, isCgo := True,
      imports := [''C''],
      copts := [\<lparr>taggedOpts.tags = ''linux'', opts = ''-DLINUX''\<rparr>,
                \<lparr>taggedOpts.tags = [], opts = ''-O2''\<rparr>],
      clinkopts := [\<lparr>taggedOpts.tags = ''!linux'', opts = ''-lfoo''\<rparr>]\<rparr>"

definition linuxFile :: fileInfo where
  "linuxFile = emptyInfo\<lparr>path := ''pkg/a_linux.go'', name := ''a_linux.go'', category := goExt,
      imports := [''os''], goos := ''linux'',
      copts := [\<lparr>taggedOpts.tags = ''darwin'', opts = ''-DDARWIN''\<rparr>,
                \<lparr>taggedOpts.tags = [], opts = ''-O2''\<rparr>]\<rparr>"

definition gcFile :: fileInfo where
  "gcFile = emptyInfo\<lparr>path := ''pkg/a.go'', name := ''a.go'', category := goExt,
      tags := [''gc'']\<rparr>"

subsection \<open>The case of the \<^verbatim>\<open>switch\<close> that a file reaches\<close>

text \<open>The cases of the \<^verbatim>\<open>switch\<close> in \<^verbatim>\<open>Package.addFile\<close> in their order, the two
  test cases split by the error they return for cgo; \<^term>\<open>NoCase\<close> when no case matches.
  The order-independence proof reads the target of a file off this function.\<close>

datatype route =
  Dropped | CgoInTest | ToXTest | ToTest | ToCgoLibrary | ToLibrary | ToProtos | NoCase

definition route :: "bool \<Rightarrow> fileInfo \<Rightarrow> route" where
  "route cgo info =
     (if category info = ignoredExt \<or> category info = unsupportedExt then Dropped
      else if isXTest info then (if isCgo info then CgoInTest else ToXTest)
      else if isTest info then (if isCgo info then CgoInTest else ToTest)
      else if isCgo info \<or> (cgo \<and> (category info = cExt \<or> category info = hExt \<or> category info = csExt)) then
        ToCgoLibrary
      else if category info = goExt \<or> category info = sExt \<or> category info = hExt then ToLibrary
      else if category info = protoExt then ToProtos
      else NoCase)"

definition protoA :: fileInfo where
  "protoA = emptyInfo\<lparr>path := ''pkg/a.proto'', name := ''a.proto'', category := protoExt\<rparr>"

definition protoB :: fileInfo where
  "protoB = emptyInfo\<lparr>path := ''pkg/b.proto'', name := ''b.proto'', category := protoExt\<rparr>"

subsection \<open>\<^verbatim>\<open>newValue\<close> terminates\<close>

termination newValue
proof (relation "measure vsize")
  have member: "v \<in> set vs \<Longrightarrow> vsize v < Suc (sum_list (map vsize vs))" for v vs
    by (induction vs) auto
  have entry: "(k, v) \<in> set m \<Longrightarrow> vsize v < Suc (sum_list (map (\<lambda>kv. vsize (snd kv)) m))"
    for k v and m :: "(gokey \<times> val) list"
    by (induction m) auto
  have strings: "vsize (stringsVal ss) = 1" for ss
    by (induction ss) (auto simp: stringsVal_def)
  have platform: "vsize (platformVal m) = Suc (length m)" for m
    by (induction m) (auto simp: platformVal_def stringKeyed_def strings)
  show "wf (measure vsize)"
    by simp
  show "(z, VSlice vs) \<in> measure vsize" if "z \<in> set vs" for vs z
    using member[OF that] by simp
  show "(v, VMap m) \<in> measure vsize"
    if "rkeys = sort_key keyString (map fst m)" "rk \<in> set rkeys" "map_of m rk = Some v"
    for m rkeys rk v
  proof -
    from that have "(rk, v) \<in> set m"
      by (simp add: map_of_SomeD)
    then show ?thesis
      using entry[of rk v m] by simp
  qed
  show "(stringsVal (patterns g), VGlob g) \<in> measure vsize" for g
    by (simp add: strings)
  show "(stringsVal (excludes g), VGlob g) \<in> measure vsize" for g
    by (simp add: strings)
  show "(stringsVal (Generic ps), VPlatformStrings ps) \<in> measure vsize" for ps
    by (simp add: strings)
  show "(platformVal m, VPlatformStrings ps) \<in> measure vsize" if "Platform ps = Some m" for ps m
    using that by (simp add: platform)
qed

section \<open>Routing of a file: \<^verbatim>\<open>Package.addFile\<close>\<close>

text \<open>
  Claim C4, as amended. For every file record that is a test (\<^verbatim>\<open>isTest\<close> or
  \<^verbatim>\<open>isXTest\<close>), uses cgo and whose category is neither ignored nor unsupported,
  \<^verbatim>\<open>Package.addFile\<close> returns the error \<^verbatim>\<open>use of cgo in test not supported\<close>
  prefixed with the path of the file, whatever the tags, the configuration and the
  \<^verbatim>\<open>cgo\<close> flag are. And whenever \<^verbatim>\<open>addFile\<close> returns an error, the package is
  unchanged.
\<close>

theorem Package_addFile_cgo_in_test:
  "(category info \<noteq> ignoredExt \<and> category info \<noteq> unsupportedExt
      \<and> (isTest info \<or> isXTest info) \<and> isCgo info
    \<longrightarrow> Package_addFile c info cgo p
          = (p, Some (path info @ '': use of cgo in test not supported'')))
   \<and> (snd (Package_addFile c info cgo p) \<noteq> None \<longrightarrow> fst (Package_addFile c info cgo p) = p)"
  by (simp add: Package_addFile_def cgoInTest_def)

theorem Package_addFile_cgo_in_test_witness:
  "Package_addFile sampleConfig cgoTestFile False emptyPackage
     = (emptyPackage, Some ''pkg/a_test.go: use of cgo in test not supported'')
   \<and> fst (Package_addFile sampleConfig cgoTestFile False emptyPackage) = emptyPackage"
  using Package_addFile_cgo_in_test [of cgoTestFile sampleConfig False emptyPackage]
  by (simp add: cgoTestFile_def emptyInfo_def)

text \<open>The claim as stated fails: the case for ignored and unsupported categories comes
  first in the \<^verbatim>\<open>switch\<close>, so a cgo test file of such a category is dropped without an
  error.\<close>

theorem Package_addFile_cgo_in_test_ignored:
  "(isTest ignoredCgoTestFile \<or> isXTest ignoredCgoTestFile) \<and> isCgo ignoredCgoTestFile
   \<and> snd (Package_addFile sampleConfig ignoredCgoTestFile False emptyPackage) = None"
  by (simp add: Package_addFile_def ignoredCgoTestFile_def emptyInfo_def)

text \<open>
  Claim C8, as amended. For every file record whose name ends in \<^verbatim>\<open>.pb.go\<close>, whose
  category is neither ignored nor unsupported and which is not a test that uses cgo,
  \<^verbatim>\<open>Package.addFile\<close> succeeds and leaves \<^verbatim>\<open>HasPbGo\<close> set, whichever of the remaining
  cases of the \<^verbatim>\<open>switch\<close> applies, also when none does.
\<close>

theorem Package_addFile_HasPbGo:
  assumes "HasSuffix (name info) ''.pb.go''"
    and "category info \<noteq> ignoredExt" and "category info \<noteq> unsupportedExt"
    and "\<not> ((isTest info \<or> isXTest info) \<and> isCgo info)"
  shows "snd (Package_addFile c info cgo p) = None
         \<and> HasPbGo (fst (Package_addFile c info cgo p))"
  using assms by (auto simp add: Package_addFile_def markPbGo_def)

theorem Package_addFile_HasPbGo_witness:
  "HasSuffix (name pbGoFile) ''.pb.go''
   \<and> HasPbGo (fst (Package_addFile sampleConfig pbGoFile False emptyPackage))"
  using Package_addFile_HasPbGo [of pbGoFile sampleConfig False emptyPackage]
  by (simp add: pbGoFile_def emptyInfo_def HasSuffix_def)

text \<open>The claim as stated fails: a file of ignored category leaves \<^verbatim>\<open>addFile\<close> through
  the first \<^verbatim>\<open>return\<close>, and a test file that uses cgo through the \<^verbatim>\<open>return\<close> of the
  error, both before the statement that sets \<^verbatim>\<open>HasPbGo\<close>.\<close>

theorem Package_addFile_HasPbGo_ignored:
  "HasSuffix (name ignoredPbGoFile) ''.pb.go''
   \<and> \<not> HasPbGo (fst (Package_addFile sampleConfig ignoredPbGoFile False emptyPackage))
   \<and> HasSuffix (name cgoTestPbGoFile) ''.pb.go''
   \<and> snd (Package_addFile sampleConfig cgoTestPbGoFile False emptyPackage) \<noteq> None
   \<and> \<not> HasPbGo (fst (Package_addFile sampleConfig cgoTestPbGoFile False emptyPackage))"
  by (simp add: Package_addFile_def ignoredPbGoFile_def cgoTestPbGoFile_def emptyInfo_def
      HasSuffix_def emptyPackage_def)

text \<open>
  Claim C10. For every file record that is not a test, does not use cgo, and whose category
  is C source (\<^verbatim>\<open>cExt\<close>) or C assembly (\<^verbatim>\<open>csExt\<close>), when the \<^verbatim>\<open>cgo\<close> flag of the
  package is false, \<^verbatim>\<open>Package.addFile\<close> returns no error and leaves every target and
  \<^verbatim>\<open>Protos\<close> as they were: the package changes in \<^verbatim>\<open>HasPbGo\<close> at most, which the
  statement after the \<^verbatim>\<open>switch\<close> sets from the name.
\<close>

theorem Package_addFile_c_without_cgo:
  assumes "\<not> isTest info" and "\<not> isXTest info" and "\<not> isCgo info"
    and "category info = cExt \<or> category info = csExt"
  shows "Package_addFile c info False p
         = (p\<lparr>HasPbGo := HasPbGo p \<or> HasSuffix (name info) ''.pb.go''\<rparr>, None)"
proof -
  have "Package_addFile c info False p = (markPbGo info p, None)"
    using assms by (elim disjE) (simp_all add: Package_addFile_def)
  moreover have "markPbGo info p
                 = p\<lparr>HasPbGo := HasPbGo p \<or> HasSuffix (name info) ''.pb.go''\<rparr>"
    by (simp add: markPbGo_def)
  ultimately show ?thesis
    by simp
qed

theorem Package_addFile_c_without_cgo_witness:
  "Package_addFile sampleConfig cFile False emptyPackage = (emptyPackage, None)"
  using Package_addFile_c_without_cgo [of cFile sampleConfig emptyPackage]
  by (simp add: cFile_def emptyInfo_def HasSuffix_def emptyPackage_def)

section \<open>Normalisation: \<^verbatim>\<open>Clean\<close>\<close>

subsection \<open>The helpers compute a filter and the sorted list of a set\<close>

lemma remove_filter: "remove ss rm = filter (\<lambda>s. s \<notin> rm) ss"
  by (induction ss) auto

lemma uniqLoop_remdups_adj: "prev # uniqLoop prev ss = remdups_adj (prev # ss)"
  by (induction ss arbitrary: prev) auto

lemma uniq_remdups_adj: "uniq ss = remdups_adj ss"
proof (cases ss)
  case Nil
  then show ?thesis by (simp add: uniq_def)
next
  case (Cons x xs)
  then show ?thesis
    using uniqLoop_remdups_adj[of x xs] by (cases xs) (simp_all add: uniq_def)
qed

lemma sorted_distinct_remdups_adj: "sorted (xs :: string list) \<Longrightarrow> distinct (remdups_adj xs)"
  by (induction xs rule: remdups_adj.induct) (auto)

lemma uniq_sort: "uniq (sort ss) = sorted_list_of_set (set ss)"
proof -
  have "sorted (uniq (sort ss))" "distinct (uniq (sort ss))" "set (uniq (sort ss)) = set ss"
    by (simp_all add: uniq_remdups_adj sorted_distinct_remdups_adj)
  then show ?thesis
    by (intro sorted_distinct_set_unique) simp_all
qed

lemma set_uniq_sort: "set (uniq (sort ss)) = set ss"
  by (simp add: uniq_sort)

lemma uniq_sort_idem: "uniq (sort (uniq (sort ss))) = uniq (sort ss)"
  by (simp add: uniq_sort)

lemma uniq_sort_Nil_iff: "uniq (sort ss) = [] \<longleftrightarrow> ss = []"
  using set_uniq_sort[of ss] by (metis set_empty)

lemma remove_id: "set ss \<inter> rm = {} \<Longrightarrow> remove ss rm = ss"
  by (induction ss) auto

lemma set_remove: "set (remove ss rm) = set ss - rm"
  by (auto simp: remove_filter)

lemma map_of_fold_cleanEntry:
  "distinct (map fst xs) \<Longrightarrow>
   map_of (fold (cleanEntry G) xs acc) k =
     (case map_of xs k of
        None \<Rightarrow> map_of acc k
      | Some ss \<Rightarrow> if remove ss G = [] then None else Some (uniq (sort (remove ss G))))"
proof (induction xs arbitrary: acc)
  case Nil
  then show ?case by simp
next
  case (Cons x xs)
  obtain n ss where x: "x = (n, ss)" by (cases x)
  from Cons.prems x have n: "map_of xs n = None" and d: "distinct (map fst xs)"
    by (auto simp: map_of_eq_None_iff)
  show ?case
    using Cons.IH[OF d, of "cleanEntry G (n, ss) acc"] n
    by (auto simp: x cleanEntry_def Let_def update_conv' delete_conv' split: option.splits)
qed

lemma distinct_fold_cleanEntry:
  "distinct (map fst acc) \<Longrightarrow> distinct (map fst (fold (cleanEntry G) xs acc))"
  by (induction xs arbitrary: acc)
     (auto simp: cleanEntry_def Let_def distinct_update distinct_delete)

lemma fold_cleanEntry_fixed:
  "\<forall>(n, ss) \<in> set xs.
       map_of acc n = Some ss \<and> ss \<noteq> [] \<and> remove ss G = ss \<and> uniq (sort ss) = ss \<Longrightarrow>
   fold (cleanEntry G) xs acc = acc"
  by (induction xs) (auto simp: cleanEntry_def update_triv)

subsection \<open>What \<^verbatim>\<open>Clean\<close> leaves in each field\<close>

lemma Generic_Clean: "Generic (Clean S) = uniq (sort (Generic S))"
  by (simp add: Clean_def Let_def split: option.splits)

lemma map_of_cleaned:
  assumes "distinct (map fst m)"
  shows "map_of (fold (cleanEntry G) m m) k =
     (case map_of m k of
        None \<Rightarrow> None
      | Some ss \<Rightarrow> if remove ss G = [] then None else Some (uniq (sort (remove ss G))))"
  using map_of_fold_cleanEntry[OF assms, of G m k] by (simp split: option.splits)

lemma Platform_Clean:
  "Platform (Clean S) =
     (case Platform S of
        None \<Rightarrow> None
      | Some m \<Rightarrow> (let m' = fold (cleanEntry (set (Generic S))) m m
                   in if m' = [] then None else Some m'))"
  by (simp add: Clean_def Let_def set_uniq_sort split: option.splits)

lemma wfStrings_Clean: "wfStrings S \<Longrightarrow> wfStrings (Clean S)"
  by (auto simp: wfStrings_def wfMap_def Platform_Clean Let_def distinct_fold_cleanEntry
      split: option.splits)

lemma platformGet_Clean:
  assumes "wfStrings S"
  shows "platformGet (Clean S) nm = uniq (sort (remove (platformGet S nm) (set (Generic S))))"
proof (cases "Platform S")
  case None
  then show ?thesis
    by (simp add: platformGet_def Platform_Clean uniq_def)
next
  case (Some m)
  let ?m' = "fold (cleanEntry (set (Generic S))) m m"
  from assms Some have d: "distinct (map fst m)"
    by (simp add: wfStrings_def wfMap_def)
  have *: "mapIndex ?m' nm = uniq (sort (remove (mapIndex m nm) (set (Generic S))))"
    by (auto simp: mapIndex_def map_of_cleaned[OF d] uniq_def split: option.splits)
  show ?thesis
  proof (cases "?m' = []")
    case True
    then have "mapIndex ?m' nm = []"
      by (simp add: mapIndex_def)
    with * True Some show ?thesis
      by (simp add: platformGet_def Platform_Clean)
  next
    case False
    with * Some show ?thesis
      by (simp add: platformGet_def Platform_Clean)
  qed
qed

lemma platformKeys_Clean:
  assumes "wfStrings S"
  shows "platformKeys (Clean S)
         = {nm \<in> platformKeys S. \<not> set (platformGet S nm) \<subseteq> set (Generic S)}"
proof (cases "Platform S")
  case None
  then show ?thesis
    by (simp add: platformKeys_def Platform_Clean)
next
  case (Some m)
  let ?G = "set (Generic S)"
  let ?m' = "fold (cleanEntry ?G) m m"
  from assms Some have d: "distinct (map fst m)"
    by (simp add: wfStrings_def wfMap_def)
  have rm: "remove ss ?G = [] \<longleftrightarrow> set ss \<subseteq> ?G" for ss
    using set_remove[of ss ?G] by (metis Diff_eq_empty_iff set_empty)
  have "set (map fst ?m') = dom (map_of ?m')"
    by (simp add: dom_map_of_conv_image_fst)
  also have "\<dots> = {nm \<in> dom (map_of m). \<not> set (mapIndex m nm) \<subseteq> ?G}"
    by (auto simp: map_of_cleaned[OF d] mapIndex_def rm split: option.splits if_splits)
  also have "\<dots> = {nm \<in> platformKeys S. \<not> set (platformGet S nm) \<subseteq> ?G}"
    using Some by (simp add: platformKeys_def platformGet_def dom_map_of_conv_image_fst)
  finally have keys: "set (map fst ?m') = {nm \<in> platformKeys S. \<not> set (platformGet S nm) \<subseteq> ?G}" .
  show ?thesis
  proof (cases "?m' = []")
    case True
    with keys Some show ?thesis
      by (simp add: platformKeys_def Platform_Clean)
  next
    case False
    with keys Some show ?thesis
      by (simp add: platformKeys_def Platform_Clean)
  qed
qed

lemma Platform_Clean_None_iff: "Platform (Clean S) = None \<longleftrightarrow> platformKeys (Clean S) = {}"
  by (auto simp: platformKeys_def Platform_Clean Let_def split: option.splits if_splits)

lemma Clean_fixed:
  assumes g: "uniq (sort (Generic S)) = Generic S"
    and p: "case Platform S of None \<Rightarrow> True
            | Some m \<Rightarrow> m \<noteq> [] \<and> distinct (map fst m)
                \<and> (\<forall>(n, ss) \<in> set m. ss \<noteq> [] \<and> set ss \<inter> set (Generic S) = {}
                                        \<and> uniq (sort ss) = ss)"
  shows "Clean S = S"
proof (cases "Platform S")
  case None
  with g show ?thesis
    by (simp add: Clean_def)
next
  case (Some m)
  with p have m: "m \<noteq> []" "distinct (map fst m)"
    and e: "\<forall>(n, ss) \<in> set m. ss \<noteq> [] \<and> set ss \<inter> set (Generic S) = {} \<and> uniq (sort ss) = ss"
    by simp_all
  have "fold (cleanEntry (set (Generic S))) m m = m"
  proof (rule fold_cleanEntry_fixed, clarify)
    fix n ss assume "(n, ss) \<in> set m"
    with m e show "map_of m n = Some ss \<and> ss \<noteq> [] \<and> remove ss (set (Generic S)) = ss
                   \<and> uniq (sort ss) = ss"
      by (auto simp: remove_id)
  qed
  with Some g m show ?thesis
    by (simp add: Clean_def)
qed

text \<open>
  Claim C2. For every \<^verbatim>\<open>PlatformStrings\<close> value \<open>S\<close> (its platform map a Go map, so
  with distinct keys): \<^verbatim>\<open>Clean\<close> is idempotent; after one call the generic list is
  sorted and free of duplicates and holds the strings it held before; every remaining
  platform list is sorted, free of duplicates, not empty and disjoint from the generic list,
  and holds the strings it held before that are not generic; the platforms that remain are
  those with a string that is not generic; and the map is nil exactly when no platform
  remains.
\<close>

theorem Clean_idempotent_normal:
  assumes "wfStrings S"
  shows "Clean (Clean S) = Clean S
    \<and> sorted (Generic (Clean S)) \<and> distinct (Generic (Clean S))
    \<and> set (Generic (Clean S)) = set (Generic S)
    \<and> (\<forall>nm \<in> platformKeys (Clean S).
          sorted (platformGet (Clean S) nm) \<and> distinct (platformGet (Clean S) nm)
          \<and> set (platformGet (Clean S) nm) \<inter> set (Generic (Clean S)) = {}
          \<and> platformGet (Clean S) nm \<noteq> [])
    \<and> (\<forall>nm. set (platformGet (Clean S) nm) = set (platformGet S nm) - set (Generic S))
    \<and> platformKeys (Clean S)
        = {nm \<in> platformKeys S. \<not> set (platformGet S nm) \<subseteq> set (Generic S)}
    \<and> (Platform (Clean S) = None \<longleftrightarrow> platformKeys (Clean S) = {})
    \<and> wfStrings (Clean S)"
proof -
  let ?C = "Clean S"
  have gen: "Generic ?C = sorted_list_of_set (set (Generic S))"
    by (simp add: Generic_Clean uniq_sort)
  have get: "platformGet ?C nm = sorted_list_of_set (set (platformGet S nm) - set (Generic S))" for nm
    by (simp add: platformGet_Clean[OF assms] uniq_sort set_remove)
  have keys: "platformKeys ?C = {nm \<in> platformKeys S. \<not> set (platformGet S nm) \<subseteq> set (Generic S)}"
    by (rule platformKeys_Clean[OF assms])
  have wf: "wfStrings ?C"
    by (rule wfStrings_Clean[OF assms])
  have nonempty: "platformGet ?C nm \<noteq> []" if "nm \<in> platformKeys ?C" for nm
  proof -
    from that keys have "set (platformGet S nm) - set (Generic S) \<noteq> {}"
      by auto
    then have "set (platformGet ?C nm) \<noteq> {}"
      by (simp add: get)
    then show ?thesis
      by auto
  qed
  have idem: "Clean ?C = ?C"
  proof (rule Clean_fixed)
    show "uniq (sort (Generic ?C)) = Generic ?C"
      by (simp add: Generic_Clean uniq_sort_idem)
    show "case Platform ?C of None \<Rightarrow> True
          | Some m \<Rightarrow> m \<noteq> [] \<and> distinct (map fst m)
              \<and> (\<forall>(n, ss) \<in> set m. ss \<noteq> [] \<and> set ss \<inter> set (Generic ?C) = {}
                                      \<and> uniq (sort ss) = ss)"
    proof (cases "Platform ?C")
      case None
      then show ?thesis by simp
    next
      case (Some m)
      from wf Some have d: "distinct (map fst m)"
        by (simp add: wfStrings_def wfMap_def)
      from Some have ne: "m \<noteq> []"
        using Platform_Clean_None_iff[of S] by (auto simp: platformKeys_def)
      have "ss \<noteq> [] \<and> set ss \<inter> set (Generic ?C) = {} \<and> uniq (sort ss) = ss"
        if "(n, ss) \<in> set m" for n ss
      proof -
        from that d have "map_of m n = Some ss"
          by simp
        with Some have ss: "platformGet ?C n = ss"
          by (simp add: platformGet_def mapIndex_def)
        from that Some have "n \<in> platformKeys ?C"
          by (force simp: platformKeys_def)
        from nonempty[OF this] ss have "ss \<noteq> []"
          by simp
        moreover from ss have "ss = sorted_list_of_set (set (platformGet S n) - set (Generic S))"
          by (simp add: get)
        ultimately show ?thesis
          by (auto simp: gen uniq_sort)
      qed
      with Some d ne show ?thesis
        by auto
    qed
  qed
  show ?thesis
    using idem keys wf Platform_Clean_None_iff[of S] nonempty
    by (auto simp: gen get)
qed

theorem Clean_idempotent_normal_witness:
  "wfStrings sampleStrings
   \<and> Clean sampleStrings
       = \<lparr>Generic = [''a'', ''b''], Platform = Some [(''linux_amd64'', [''c''])]\<rparr>
   \<and> Clean (Clean sampleStrings) = Clean sampleStrings
   \<and> platformKeys (Clean sampleStrings) = {''linux_amd64''}"
proof -
  have wf: "wfStrings sampleStrings"
    by code_simp
  have c: "Clean sampleStrings
           = \<lparr>Generic = [''a'', ''b''], Platform = Some [(''linux_amd64'', [''c''])]\<rparr>"
    by code_simp
  have "Clean (Clean sampleStrings) = Clean sampleStrings"
    using Clean_idempotent_normal [OF wf] by simp
  with wf c show ?thesis
    by (simp add: platformKeys_def)
qed

section \<open>\<^verbatim>\<open>PlatformStrings.Map\<close>\<close>

lemma fold_mapGeneric:
  "fold (mapGeneric f) ss (res, errs) =
     (res @ map projr (filter (\<lambda>x. \<not> isl x) (map f ss)),
      errs @ map projl (filter isl (map f ss)))"
  by (induction ss arbitrary: res errs) (auto simp: mapGeneric_def split: sum.splits)

lemma update_fresh: "n \<notin> fst ` set res \<Longrightarrow> AList.update n v res = res @ [(n, v)]"
  by (induction res) auto

lemma update_last_entry:
  "n \<notin> fst ` set res \<Longrightarrow> AList.update n v (res @ [(n, w)]) = res @ [(n, v)]"
  by (induction res) auto

lemma mapIndex_last_entry: "n \<notin> fst ` set res \<Longrightarrow> mapIndex (res @ [(n, w)]) n = w"
  by (induction res) (auto simp: mapIndex_def)

lemma fold_mapPlatformItem:
  "n \<notin> fst ` set res \<Longrightarrow>
   fold (mapPlatformItem f n) ss (res @ [(n, acc)], errs) =
     (res @ [(n, acc @ map projr (filter (\<lambda>x. \<not> isl x) (map f ss)))],
      errs @ map projl (filter isl (map f ss)))"
  by (induction ss arbitrary: acc errs)
     (auto simp: mapPlatformItem_def update_last_entry mapIndex_last_entry split: sum.splits)

lemma fold_mapPlatform:
  "distinct (map fst xs) \<Longrightarrow> fst ` set xs \<inter> fst ` set res = {} \<Longrightarrow>
   fold (mapPlatform f) xs (res, errs) =
     (res @ map (\<lambda>(n, ss). (n, map projr (filter (\<lambda>x. \<not> isl x) (map f ss)))) xs,
      errs @ concat (map (\<lambda>(n, ss). map projl (filter isl (map f ss))) xs))"
proof (induction xs arbitrary: res errs)
  case Nil
  then show ?case by simp
next
  case (Cons x xs)
  obtain n ss where x: "x = (n, ss)" by (cases x)
  from Cons.prems x have fresh: "n \<notin> fst ` set res" and d: "distinct (map fst xs)"
    and n: "n \<notin> fst ` set xs" and disj: "fst ` set xs \<inter> fst ` set res = {}"
    by auto
  let ?r = "map projr (filter (\<lambda>x. \<not> isl x) (map f ss))"
  let ?e = "map projl (filter isl (map f ss))"
  have step: "mapPlatform f (n, ss) (res, errs) = (res @ [(n, ?r)], errs @ ?e)"
    using fold_mapPlatformItem[OF fresh, of f ss "[]" errs]
    by (simp add: mapPlatform_def update_fresh[OF fresh])
  have "fst ` set xs \<inter> fst ` set (res @ [(n, ?r)]) = {}"
    using n disj by auto
  from Cons.IH[OF d this, of "errs @ ?e"] step show ?case
    by (simp add: x)
qed

text \<open>
  Claim C7. For every \<^verbatim>\<open>PlatformStrings\<close> value and every transform \<open>f\<close>,
  \<^verbatim>\<open>Map\<close> applies \<open>f\<close> to every string of the generic list and of every platform list
  and goes on after a failure. It returns the results of the successful applications in a
  value of the same shape (the generic list; the same platforms in the same enumeration
  order, each with its results, also when that list is empty; a nil map for a nil map),
  together with all the failures: those of the generic list in order, then those of each
  platform list in order, platform after platform as the map is enumerated.
\<close>

theorem PlatformStrings_Map_all:
  assumes "wfStrings ps"
  shows "PlatformStrings_Map f ps =
    (\<lparr>Generic = map projr (filter (\<lambda>x. \<not> isl x) (map f (Generic ps))),
      Platform = map_option
        (map (\<lambda>(n, ss). (n, map projr (filter (\<lambda>x. \<not> isl x) (map f ss))))) (Platform ps)\<rparr>,
     map projl (filter isl (map f (Generic ps)))
     @ concat (map (\<lambda>(n, ss). map projl (filter isl (map f ss)))
                 (case Platform ps of None \<Rightarrow> [] | Some m \<Rightarrow> m)))"
proof (cases "Platform ps")
  case None
  then show ?thesis
    using fold_mapGeneric[of f "Generic ps" "[]" "[]"]
    by (simp add: PlatformStrings_Map_def)
next
  case (Some m)
  with assms have "distinct (map fst m)"
    by (simp add: wfStrings_def wfMap_def)
  from fold_mapPlatform[OF this, of "[]" f] Some show ?thesis
    using fold_mapGeneric[of f "Generic ps" "[]" "[]"]
    by (simp add: PlatformStrings_Map_def)
qed

theorem PlatformStrings_Map_all_witness:
  "wfStrings mapSample
   \<and> PlatformStrings_Map failOnX mapSample
       = (\<lparr>Generic = [''//a''],
           Platform = Some [(''linux_amd64'', [''//b'']), (''darwin_amd64'', [])]\<rparr>,
          [''bad: x1'', ''bad: x2'', ''bad: x3'', ''bad: x4''])"
proof -
  have wf: "wfStrings mapSample"
    by code_simp
  show ?thesis
    using wf PlatformStrings_Map_all [OF wf, of failOnX]
    by (simp add: mapSample_def failOnX_def HasPrefix_def)
qed

section \<open>Expression synthesis: \<^verbatim>\<open>newValue\<close>\<close>

lemma those_map:
  "those (map g ks) = (if \<forall>k \<in> set ks. g k \<noteq> None then Some (map (\<lambda>k. the (g k)) ks) else None)"
  by (induction ks) (auto split: option.splits)

lemma newValue_stringsVal: "newValue (stringsVal ss) = Some (ListExpr (map StringExpr ss) False)"
  by (simp add: stringsVal_def those_map comp_def)

lemma sort_distinct_keys:
  "distinct (ks :: string list) \<Longrightarrow> sort ks = sorted_list_of_set (set ks)"
  by (simp add: sorted_list_of_set_sort_remdups distinct_remdups_id)

lemma insort_StringKey:
  "insort_key keyString (StringKey s) (map StringKey ss) = map StringKey (insort s ss)"
  by (induction ss) auto

lemma sort_StringKey: "sort_key keyString (map StringKey ss) = map StringKey (sort ss)"
  by (induction ss) (auto simp: insort_StringKey)

lemma fst_stringKeyed: "map fst (stringKeyed m) = map StringKey (map fst m)"
  by (induction m) (auto simp: stringKeyed_def)

lemma map_of_stringKeyed: "map_of (stringKeyed m) (StringKey k) = map_of m k"
  by (induction m) (auto simp: stringKeyed_def)


lemma newValue_VMap:
  assumes "wfMap m"
  shows "newValue (VMap (stringKeyed m)) =
    (if \<forall>v \<in> snd ` set m. newValue v \<noteq> None
     then Some (selectCall
            (map (\<lambda>k. KeyValueExpr (StringExpr k)
                        (forceMultiLine (the (newValue (the (map_of m k))))))
               (sorted_list_of_set (fst ` set m))
             @ [defaultCase]))
     else None)"
proof -
  from assms have d: "distinct (map fst m)"
    by (simp add: wfMap_def)
  let ?g = "\<lambda>k. case map_of m k of
                   None \<Rightarrow> None
                 | Some v \<Rightarrow> map_option (\<lambda>e. KeyValueExpr (StringExpr k) (forceMultiLine e))
                               (newValue v)"
  let ?ks = "sorted_list_of_set (fst ` set m)"
  have ks: "sort_key keyString (map fst (stringKeyed m)) = map StringKey ?ks"
    using sort_distinct_keys[OF d] by (simp only: fst_stringKeyed sort_StringKey list.set_map)
  have unfold: "newValue (VMap (stringKeyed m))
                = map_option (\<lambda>args. selectCall (args @ [defaultCase])) (those (map ?g ?ks))"
    by (simp add: ks Let_def comp_def map_of_stringKeyed cong: option.case_cong)
  have set_ks: "set ?ks = fst ` set m"
    by simp
  have all: "(\<forall>k \<in> set ?ks. ?g k \<noteq> None) \<longleftrightarrow> (\<forall>v \<in> snd ` set m. newValue v \<noteq> None)"
  proof
    assume l: "\<forall>k \<in> set ?ks. ?g k \<noteq> None"
    show "\<forall>v \<in> snd ` set m. newValue v \<noteq> None"
    proof
      fix v assume "v \<in> snd ` set m"
      then obtain k where kv: "(k, v) \<in> set m" by auto
      with d have "map_of m k = Some v" by simp
      moreover from kv have "k \<in> set ?ks" by force
      ultimately show "newValue v \<noteq> None" using l by force
    qed
  next
    assume r: "\<forall>v \<in> snd ` set m. newValue v \<noteq> None"
    show "\<forall>k \<in> set ?ks. ?g k \<noteq> None"
    proof
      fix k assume "k \<in> set ?ks"
      then obtain v where "(k, v) \<in> set m" by auto
      with d have "map_of m k = Some v" by simp
      moreover from \<open>(k, v) \<in> set m\<close> have "v \<in> snd ` set m" by force
      ultimately show "?g k \<noteq> None" using r by auto
    qed
  qed
  have vals: "the (?g k) = KeyValueExpr (StringExpr k) (forceMultiLine (the (newValue (the (map_of m k)))))"
    if "k \<in> set ?ks" "\<forall>v \<in> snd ` set m. newValue v \<noteq> None" for k
  proof -
    from that(1) obtain v where kv: "(k, v) \<in> set m" by auto
    with d have m: "map_of m k = Some v" by simp
    from kv that(2) obtain e where "newValue v = Some e" by force
    with m show ?thesis by simp
  qed
  show ?thesis
  proof (cases "\<forall>v \<in> snd ` set m. newValue v \<noteq> None")
    case True
    with all have "\<forall>k \<in> set ?ks. ?g k \<noteq> None"
      by blast
    then have "those (map ?g ?ks) = Some (map (\<lambda>k. the (?g k)) ?ks)"
      by (subst those_map) (rule if_P)
    moreover have "map (\<lambda>k. the (?g k)) ?ks
      = map (\<lambda>k. KeyValueExpr (StringExpr k) (forceMultiLine (the (newValue (the (map_of m k)))))) ?ks"
      using vals True by (intro map_cong) simp_all
    ultimately have "those (map ?g ?ks)
      = Some (map (\<lambda>k. KeyValueExpr (StringExpr k)
                          (forceMultiLine (the (newValue (the (map_of m k)))))) ?ks)"
      by (rule trans[OF _ arg_cong[of _ _ Some]])
    then show ?thesis
      unfolding unfold using True by simp
  next
    case False
    with all have "\<not> (\<forall>k \<in> set ?ks. ?g k \<noteq> None)"
      by blast
    then have "those (map ?g ?ks) = None"
      by (subst those_map) (rule if_not_P)
    then show ?thesis
      unfolding unfold using False by simp
  qed
qed




text \<open>
  Claim C5. For every \<^verbatim>\<open>PlatformStrings\<close> value passed to \<^verbatim>\<open>newValue\<close>: with no
  platform entry the result is the generic list expression; with platform entries and an
  empty generic list it is the \<^verbatim>\<open>select\<close> expression over the platforms; with both,
  it is the binary expression \<^verbatim>\<open>+\<close> of the generic list, forced multi-line, and the
  \<^verbatim>\<open>select\<close> expression.
\<close>

theorem newValue_PlatformStrings:
  assumes "wfStrings ps"
  shows "newValue (VPlatformStrings ps) =
     (let gen = map StringExpr (Generic ps);
          sel = CallExpr (LiteralExpr ''select'')
                  [DictExpr
                     (map (\<lambda>k. KeyValueExpr (StringExpr k)
                                 (ListExpr (map StringExpr (platformGet ps k)) True))
                        (sorted_list_of_set (platformKeys ps))
                      @ [KeyValueExpr (StringExpr ''//conditions:default'') (ListExpr [] False)])
                     True]
      in if platformKeys ps = {} then Some (ListExpr gen False)
         else if Generic ps = [] then Some sel
         else Some (BinaryExpr (ListExpr gen True) ''+'' sel))"
proof (cases "Platform ps")
  case None
  then show ?thesis
    by (simp add: newValue_stringsVal platformKeys_def Let_def)
next
  case (Some m)
  with assms have d: "distinct (map fst m)"
    by (simp add: wfStrings_def wfMap_def)
  let ?pm = "map (\<lambda>(k, ss). (k, stringsVal ss)) m"
  have fst_pm: "map fst ?pm = map fst m"
    by (induction m) auto
  then have wf: "wfMap ?pm"
    using d by (simp only: wfMap_def)
  have keys: "fst ` set ?pm = platformKeys ps"
    using Some fst_pm by (metis (no_types) list.set_map option.simps(5) platformKeys_def)
  have conv: "\<forall>v \<in> snd ` set ?pm. newValue v \<noteq> None"
    by (auto simp: newValue_stringsVal)
  have val: "forceMultiLine (the (newValue (the (map_of ?pm k))))
             = ListExpr (map StringExpr (platformGet ps k)) True"
    if "k \<in> platformKeys ps" for k
  proof -
    from that Some obtain ss where "map_of m k = Some ss"
      by (auto simp: platformKeys_def weak_map_of_SomeI dest!: weak_map_of_SomeI)
    then have "map_of ?pm k = Some (stringsVal ss)" "platformGet ps k = ss"
      using Some by (simp_all add: map_of_map platformGet_def mapIndex_def)
    then show ?thesis
      by (simp add: newValue_stringsVal)
  qed
  have sel: "newValue (platformVal m) =
     Some (CallExpr (LiteralExpr ''select'')
                  [DictExpr
                     (map (\<lambda>k. KeyValueExpr (StringExpr k)
                                 (ListExpr (map StringExpr (platformGet ps k)) True))
                        (sorted_list_of_set (platformKeys ps))
                      @ [KeyValueExpr (StringExpr ''//conditions:default'') (ListExpr [] False)])
                     True])"
  proof -
    have "map (\<lambda>k. KeyValueExpr (StringExpr k)
                    (forceMultiLine (the (newValue (the (map_of ?pm k))))))
            (sorted_list_of_set (platformKeys ps))
          = map (\<lambda>k. KeyValueExpr (StringExpr k)
                    (ListExpr (map StringExpr (platformGet ps k)) True))
              (sorted_list_of_set (platformKeys ps))"
      using val Some by (intro map_cong) (simp_all add: platformKeys_def)
    with newValue_VMap[OF wf] conv keys show ?thesis
      by (simp add: platformVal_def selectCall_def defaultCase_def)
  qed
  have empty: "platformKeys ps = {} \<longleftrightarrow> m = []"
    using Some by (simp add: platformKeys_def)
  show ?thesis
    using Some sel empty by (simp add: newValue_stringsVal Let_def)
qed

theorem newValue_PlatformStrings_witness:
  "wfStrings sampleStrings
   \<and> newValue (VPlatformStrings sampleStrings)
       = Some (BinaryExpr
           (ListExpr [StringExpr ''b'', StringExpr ''a'', StringExpr ''b''] True)
           ''+''
           (CallExpr (LiteralExpr ''select'')
              [DictExpr
                 [KeyValueExpr (StringExpr ''darwin_amd64'') (ListExpr [StringExpr ''a''] True),
                  KeyValueExpr (StringExpr ''linux_amd64'')
                    (ListExpr [StringExpr ''c'', StringExpr ''a'', StringExpr ''c''] True),
                  KeyValueExpr (StringExpr ''//conditions:default'') (ListExpr [] False)]
                 True]))"
proof -
  have wf: "wfStrings sampleStrings"
    by code_simp
  have keys: "sorted_list_of_set (platformKeys sampleStrings) = [''darwin_amd64'', ''linux_amd64'']"
    by code_simp
  have ne: "platformKeys sampleStrings \<noteq> {}"
    by (simp add: platformKeys_def sampleStrings_def)
  have get: "platformGet sampleStrings ''darwin_amd64'' = [''a'']"
    "platformGet sampleStrings ''linux_amd64'' = [''c'', ''a'', ''c'']"
    by (simp_all add: platformGet_def mapIndex_def sampleStrings_def)
  have gen: "Generic sampleStrings = [''b'', ''a'', ''b'']"
    by (simp add: sampleStrings_def)
  show ?thesis
    using wf newValue_PlatformStrings [OF wf]
    by (simp add: keys ne get gen Let_def)
qed

section \<open>Accumulation into a target: \<^verbatim>\<open>Target.addFile\<close>\<close>

subsection \<open>Appending to a platform entry\<close>

lemma Generic_addPlatformStrings [simp]:
  "Generic (addPlatformStrings nm ss ps) = Generic ps"
  by (simp add: addPlatformStrings_def Let_def)

lemma platformGet_addPlatformStrings:
  "platformGet (addPlatformStrings nm ss ps) k
   = (if k = nm then platformGet ps nm @ ss else platformGet ps k)"
  by (auto simp: addPlatformStrings_def platformGet_def mapIndex_def Let_def update_conv'
      split: option.splits)

lemma platformKeys_addPlatformStrings:
  "platformKeys (addPlatformStrings nm ss ps) = insert nm (platformKeys ps)"
  by (simp add: addPlatformStrings_def platformKeys_def Let_def dom_update split: option.splits)

lemma wfStrings_addPlatformStrings:
  "wfStrings ps \<Longrightarrow> wfStrings (addPlatformStrings nm ss ps)"
  by (auto simp: addPlatformStrings_def wfStrings_def wfMap_def Let_def distinct_update
      split: option.splits)

lemma wfStrings_addGenericStrings:
  "wfStrings ps \<Longrightarrow> wfStrings (addGenericStrings ss ps)"
  by (simp add: addGenericStrings_def wfStrings_def)

lemma platformGet_addGenericStrings [simp]:
  "platformGet (addGenericStrings ss ps) k = platformGet ps k"
  by (simp add: addGenericStrings_def platformGet_def)

lemma platformKeys_addGenericStrings [simp]:
  "platformKeys (addGenericStrings ss ps) = platformKeys ps"
  by (simp add: addGenericStrings_def platformKeys_def)

lemma Generic_addGenericStrings [simp]:
  "Generic (addGenericStrings ss ps) = Generic ps @ ss"
  by (simp add: addGenericStrings_def)

subsection \<open>Options\<close>

text \<open>The inner loop of \<^verbatim>\<open>addGenericOpts\<close> for one tagged option.\<close>

lemma fold_platforms_tagged:
  fixes P :: "string set \<Rightarrow> bool"
  assumes "distinct (map fst platforms)"
  shows "Generic (fold (\<lambda>(nm, tgs) ps. if P tgs then addPlatformStrings nm ss ps else ps)
                    platforms ps) = Generic ps
    \<and> platformGet (fold (\<lambda>(nm, tgs) ps. if P tgs then addPlatformStrings nm ss ps else ps)
                      platforms ps) k
       = platformGet ps k
         @ (if \<exists>tgs. map_of platforms k = Some tgs \<and> P tgs then ss else [])
    \<and> platformKeys (fold (\<lambda>(nm, tgs) ps. if P tgs then addPlatformStrings nm ss ps else ps)
                      platforms ps)
       = platformKeys ps \<union> {nm. \<exists>tgs. map_of platforms nm = Some tgs \<and> P tgs}
    \<and> (wfStrings ps \<longrightarrow>
         wfStrings (fold (\<lambda>(nm, tgs) ps. if P tgs then addPlatformStrings nm ss ps else ps)
                      platforms ps))"
  using assms
proof (induction platforms arbitrary: ps)
  case Nil
  then show ?case by simp
next
  case (Cons x xs)
  obtain nm tgs where x: "x = (nm, tgs)" by (cases x)
  from Cons.prems x have d: "distinct (map fst xs)" and n: "map_of xs nm = None"
    by (auto simp: map_of_eq_None_iff)
  show ?case
  proof (cases "P tgs")
    case True
    from Cons.IH[OF d, of "addPlatformStrings nm ss ps"] True n show ?thesis
      by (auto simp: x platformGet_addPlatformStrings platformKeys_addPlatformStrings
          wfStrings_addPlatformStrings)
  next
    case False
    from Cons.IH[OF d, of ps] False n show ?thesis
      by (auto simp: x)
  qed
qed

lemma addGenericOpt_props:
  assumes "distinct (map fst platforms)"
  shows "Generic (addGenericOpt platforms t ps)
           = Generic ps @ (if taggedOpts.tags t = [] then [opts t] else [])"
    and "platformGet (addGenericOpt platforms t ps) k
           = platformGet ps k
             @ (if taggedOpts.tags t \<noteq> []
                   \<and> (\<exists>tgs. map_of platforms k = Some tgs \<and> checkTags (taggedOpts.tags t) tgs)
                then [opts t] else [])"
    and "wfStrings ps \<Longrightarrow> wfStrings (addGenericOpt platforms t ps)"
  using fold_platforms_tagged[OF assms, of "checkTags (taggedOpts.tags t)" "[opts t]" ps k]
  by (simp_all add: addGenericOpt_def platformGet_def wfStrings_def)

lemma addGenericOpts_props:
  assumes "distinct (map fst platforms)"
  shows "Generic (addGenericOpts platforms os ps)
           = Generic ps @ map opts (filter (\<lambda>t. taggedOpts.tags t = []) os)
    \<and> platformGet (addGenericOpts platforms os ps) k
           = platformGet ps k
             @ map opts (filter (\<lambda>t. taggedOpts.tags t \<noteq> []
                   \<and> (\<exists>tgs. map_of platforms k = Some tgs \<and> checkTags (taggedOpts.tags t) tgs)) os)
    \<and> (wfStrings ps \<longrightarrow> wfStrings (addGenericOpts platforms os ps))"
proof (induction os arbitrary: ps)
  case Nil
  then show ?case by (simp add: addGenericOpts_def)
next
  case (Cons t os)
  from Cons.IH[of "addGenericOpt platforms t ps"] show ?case
    by (simp add: addGenericOpts_def addGenericOpt_props[OF assms])
qed

lemma addTaggedOpts_props:
  "Generic (addTaggedOpts nm os tgs ps) = Generic ps
   \<and> platformGet (addTaggedOpts nm os tgs ps) k
       = (if k = nm
          then platformGet ps nm
               @ map opts (filter (\<lambda>t. taggedOpts.tags t = [] \<or> checkTags (taggedOpts.tags t) tgs) os)
          else platformGet ps k)
   \<and> (wfStrings ps \<longrightarrow> wfStrings (addTaggedOpts nm os tgs ps))"
proof (induction os arbitrary: ps)
  case Nil
  then show ?case by (simp add: addTaggedOpts_def)
next
  case (Cons t os)
  show ?case
  proof (cases "taggedOpts.tags t = [] \<or> checkTags (taggedOpts.tags t) tgs")
    case True
    from Cons.IH[of "addPlatformStrings nm [opts t] ps"] True show ?thesis
      unfolding addTaggedOpts_def
      by (simp add: platformGet_addPlatformStrings wfStrings_addPlatformStrings)
  next
    case False
    from Cons.IH[of ps] False show ?thesis
      unfolding addTaggedOpts_def by simp
  qed
qed

subsection \<open>The loop over the platform table\<close>

lemma addFilePlatform_props:
  "Generic (Sources (addFilePlatform info (nm, tgs) t)) = Generic (Sources t)
   \<and> Generic (Imports (addFilePlatform info (nm, tgs) t)) = Generic (Imports t)
   \<and> Generic (COpts (addFilePlatform info (nm, tgs) t)) = Generic (COpts t)
   \<and> Generic (CLinkOpts (addFilePlatform info (nm, tgs) t)) = Generic (CLinkOpts t)
   \<and> platformGet (Sources (addFilePlatform info (nm, tgs) t)) k
       = platformGet (Sources t) k
         @ (if k = nm \<and> checkConstraints info tgs then [name info] else [])
   \<and> platformGet (Imports (addFilePlatform info (nm, tgs) t)) k
       = platformGet (Imports t) k
         @ (if k = nm \<and> checkConstraints info tgs then imports info else [])
   \<and> platformGet (COpts (addFilePlatform info (nm, tgs) t)) k
       = platformGet (COpts t) k
         @ (if k = nm \<and> checkConstraints info tgs
            then map opts (filter (\<lambda>t. taggedOpts.tags t = [] \<or> checkTags (taggedOpts.tags t) tgs)
                             (copts info))
            else [])
   \<and> platformGet (CLinkOpts (addFilePlatform info (nm, tgs) t)) k
       = platformGet (CLinkOpts t) k
         @ (if k = nm \<and> checkConstraints info tgs
            then map opts (filter (\<lambda>t. taggedOpts.tags t = [] \<or> checkTags (taggedOpts.tags t) tgs)
                             (clinkopts info))
            else [])
   \<and> (wfTarget t \<longrightarrow> wfTarget (addFilePlatform info (nm, tgs) t))"
  by (simp add: addFilePlatform_def platformGet_addPlatformStrings addTaggedOpts_props
      wfTarget_def wfStrings_addPlatformStrings)

lemma fold_addFilePlatform:
  assumes "distinct (map fst platforms)"
  shows "Generic (Sources (fold (addFilePlatform info) platforms t)) = Generic (Sources t)
   \<and> Generic (Imports (fold (addFilePlatform info) platforms t)) = Generic (Imports t)
   \<and> Generic (COpts (fold (addFilePlatform info) platforms t)) = Generic (COpts t)
   \<and> Generic (CLinkOpts (fold (addFilePlatform info) platforms t)) = Generic (CLinkOpts t)
   \<and> platformGet (Sources (fold (addFilePlatform info) platforms t)) k
       = platformGet (Sources t) k
         @ (if \<exists>tgs. map_of platforms k = Some tgs \<and> checkConstraints info tgs
            then [name info] else [])
   \<and> platformGet (Imports (fold (addFilePlatform info) platforms t)) k
       = platformGet (Imports t) k
         @ (if \<exists>tgs. map_of platforms k = Some tgs \<and> checkConstraints info tgs
            then imports info else [])
   \<and> platformGet (COpts (fold (addFilePlatform info) platforms t)) k
       = platformGet (COpts t) k
         @ (if \<exists>tgs. map_of platforms k = Some tgs \<and> checkConstraints info tgs
            then map opts (filter (\<lambda>t. taggedOpts.tags t = []
                                     \<or> checkTags (taggedOpts.tags t) (the (map_of platforms k)))
                             (copts info))
            else [])
   \<and> platformGet (CLinkOpts (fold (addFilePlatform info) platforms t)) k
       = platformGet (CLinkOpts t) k
         @ (if \<exists>tgs. map_of platforms k = Some tgs \<and> checkConstraints info tgs
            then map opts (filter (\<lambda>t. taggedOpts.tags t = []
                                     \<or> checkTags (taggedOpts.tags t) (the (map_of platforms k)))
                             (clinkopts info))
            else [])
   \<and> (wfTarget t \<longrightarrow> wfTarget (fold (addFilePlatform info) platforms t))"
  using assms
proof (induction platforms arbitrary: t)
  case Nil
  then show ?case by simp
next
  case (Cons x xs)
  obtain nm tgs where x: "x = (nm, tgs)" by (cases x)
  from Cons.prems x have d: "distinct (map fst xs)" and n: "map_of xs nm = None"
    by (auto simp: map_of_eq_None_iff)
  note step = addFilePlatform_props[of info nm tgs t k]
  note ih = Cons.IH[OF d, of "addFilePlatform info (nm, tgs) t"]
  show ?case
  proof (cases "k = nm")
    case True
    with ih step n show ?thesis
      by (simp add: x)
  next
    case False
    with ih step show ?thesis
      by (auto simp: x)
  qed
qed

subsection \<open>The sample constraints, evaluated\<close>

lemma sample_checkTags:
  "checkTags ''linux'' {''linux'', ''amd64'', ''gc''}"
  "\<not> checkTags ''linux'' {''darwin'', ''amd64'', ''gc''}"
  "\<not> checkTags ''!linux'' {''linux'', ''amd64'', ''gc''}"
  "checkTags ''!linux'' {''darwin'', ''amd64'', ''gc''}"
  "\<not> checkTags ''darwin'' {''linux'', ''amd64'', ''gc''}"
  "checkTags ''darwin'' {''darwin'', ''amd64'', ''gc''}"
  "checkTags ''gc'' {''gc''}"
  "checkTags ''gc'' {''linux'', ''amd64'', ''gc''}"
  "checkTags ''gc'' {''darwin'', ''amd64'', ''gc''}"
  by code_simp+

lemma sample_constraints:
  "hasConstraints linuxFile"
  "\<not> checkConstraints linuxFile (GenericTags sampleConfig)"
  "checkConstraints linuxFile {''linux'', ''amd64'', ''gc''}"
  "\<not> checkConstraints linuxFile {''darwin'', ''amd64'', ''gc''}"
  "hasConstraints gcFile"
  "checkConstraints gcFile (GenericTags sampleConfig)"
  "checkConstraints gcFile {''linux'', ''amd64'', ''gc''}"
  by code_simp+

subsection \<open>Where the contribution of a file goes\<close>

text \<open>
  Claim C1, as amended. For every file record and target (the platform table a Go map).
  When the file has no constraint, or its constraints hold for the generic tags of the
  configuration and for the tag set of every platform of the table, \<^verbatim>\<open>Target.addFile\<close>
  appends the name and the imports of the file to the generic lists of \<^verbatim>\<open>Sources\<close> and
  \<^verbatim>\<open>Imports\<close> and leaves their platform maps as they are; it appends the options without
  tags to the generic lists of \<^verbatim>\<open>COpts\<close> and \<^verbatim>\<open>CLinkOpts\<close>, and an option with tags to
  the list of each platform of the table for whose tag set \<^verbatim>\<open>checkTags\<close> holds. When
  the file has a constraint that does not hold for the generic tags, all four generic lists
  stay as they are, and for every platform name: if the table has the name and its tag set
  passes \<^verbatim>\<open>checkConstraints\<close>, the name, the imports, and those options that carry no tags
  or whose tags hold for that platform are appended to the lists of that platform; the lists
  of every other platform are unchanged. Nothing is said of a file whose constraints hold
  for the generic tags and fail for a platform.
\<close>

theorem Target_addFile_routing:
  assumes "wfMap (Platforms c)"
  shows "(\<not> hasConstraints info
          \<or> (checkConstraints info (GenericTags c)
              \<and> (\<forall>(nm, tgs) \<in> set (Platforms c). checkConstraints info tgs)) \<longrightarrow>
            Sources (Target_addFile c info t)
              = (Sources t)\<lparr>Generic := Generic (Sources t) @ [name info]\<rparr>
          \<and> Imports (Target_addFile c info t)
              = (Imports t)\<lparr>Generic := Generic (Imports t) @ imports info\<rparr>
          \<and> Generic (COpts (Target_addFile c info t))
              = Generic (COpts t)
                @ map opts (filter (\<lambda>opt. taggedOpts.tags opt = []) (copts info))
          \<and> Generic (CLinkOpts (Target_addFile c info t))
              = Generic (CLinkOpts t)
                @ map opts (filter (\<lambda>opt. taggedOpts.tags opt = []) (clinkopts info))
          \<and> (\<forall>nm.
                platformGet (COpts (Target_addFile c info t)) nm
                  = platformGet (COpts t) nm
                    @ map opts
                        (filter (\<lambda>opt. taggedOpts.tags opt \<noteq> []
                                   \<and> (\<exists>tgs. map_of (Platforms c) nm = Some tgs
                                             \<and> checkTags (taggedOpts.tags opt) tgs))
                           (copts info))
              \<and> platformGet (CLinkOpts (Target_addFile c info t)) nm
                  = platformGet (CLinkOpts t) nm
                    @ map opts
                        (filter (\<lambda>opt. taggedOpts.tags opt \<noteq> []
                                   \<and> (\<exists>tgs. map_of (Platforms c) nm = Some tgs
                                             \<and> checkTags (taggedOpts.tags opt) tgs))
                           (clinkopts info))))
    \<and> (hasConstraints info \<and> \<not> checkConstraints info (GenericTags c) \<longrightarrow>
            Generic (Sources (Target_addFile c info t)) = Generic (Sources t)
          \<and> Generic (Imports (Target_addFile c info t)) = Generic (Imports t)
          \<and> Generic (COpts (Target_addFile c info t)) = Generic (COpts t)
          \<and> Generic (CLinkOpts (Target_addFile c info t)) = Generic (CLinkOpts t)
          \<and> (\<forall>nm.
                platformGet (Sources (Target_addFile c info t)) nm
                  = platformGet (Sources t) nm
                    @ (if \<exists>tgs. map_of (Platforms c) nm = Some tgs \<and> checkConstraints info tgs
                       then [name info] else [])
              \<and> platformGet (Imports (Target_addFile c info t)) nm
                  = platformGet (Imports t) nm
                    @ (if \<exists>tgs. map_of (Platforms c) nm = Some tgs \<and> checkConstraints info tgs
                       then imports info else [])
              \<and> platformGet (COpts (Target_addFile c info t)) nm
                  = platformGet (COpts t) nm
                    @ (if \<exists>tgs. map_of (Platforms c) nm = Some tgs \<and> checkConstraints info tgs
                       then map opts
                              (filter (\<lambda>opt. taggedOpts.tags opt = []
                                         \<or> checkTags (taggedOpts.tags opt)
                                              (the (map_of (Platforms c) nm)))
                                 (copts info))
                       else [])
              \<and> platformGet (CLinkOpts (Target_addFile c info t)) nm
                  = platformGet (CLinkOpts t) nm
                    @ (if \<exists>tgs. map_of (Platforms c) nm = Some tgs \<and> checkConstraints info tgs
                       then map opts
                              (filter (\<lambda>opt. taggedOpts.tags opt = []
                                         \<or> checkTags (taggedOpts.tags opt)
                                              (the (map_of (Platforms c) nm)))
                                 (clinkopts info))
                       else [])))"
proof -
  from assms have d: "distinct (map fst (Platforms c))"
    by (simp add: wfMap_def)
  have generic: "Sources (Target_addFile c info t)
              = (Sources t)\<lparr>Generic := Generic (Sources t) @ [name info]\<rparr>
          \<and> Imports (Target_addFile c info t)
              = (Imports t)\<lparr>Generic := Generic (Imports t) @ imports info\<rparr>
          \<and> Generic (COpts (Target_addFile c info t))
              = Generic (COpts t)
                @ map opts (filter (\<lambda>opt. taggedOpts.tags opt = []) (copts info))
          \<and> Generic (CLinkOpts (Target_addFile c info t))
              = Generic (CLinkOpts t)
                @ map opts (filter (\<lambda>opt. taggedOpts.tags opt = []) (clinkopts info))
          \<and> (\<forall>nm.
                platformGet (COpts (Target_addFile c info t)) nm
                  = platformGet (COpts t) nm
                    @ map opts
                        (filter (\<lambda>opt. taggedOpts.tags opt \<noteq> []
                                   \<and> (\<exists>tgs. map_of (Platforms c) nm = Some tgs
                                             \<and> checkTags (taggedOpts.tags opt) tgs))
                           (copts info))
              \<and> platformGet (CLinkOpts (Target_addFile c info t)) nm
                  = platformGet (CLinkOpts t) nm
                    @ map opts
                        (filter (\<lambda>opt. taggedOpts.tags opt \<noteq> []
                                   \<and> (\<exists>tgs. map_of (Platforms c) nm = Some tgs
                                             \<and> checkTags (taggedOpts.tags opt) tgs))
                           (clinkopts info)))"
    if "\<not> hasConstraints info \<or> checkConstraints info (GenericTags c)"
  proof -
    from that have g: "Target_addFile c info t
      = t\<lparr>Sources := addGenericStrings [name info] (Sources t),
          Imports := addGenericStrings (imports info) (Imports t),
          COpts := addGenericOpts (Platforms c) (copts info) (COpts t),
          CLinkOpts := addGenericOpts (Platforms c) (clinkopts info) (CLinkOpts t)\<rparr>"
      by (simp only: Target_addFile_def if_True)
    show ?thesis
      by (simp add: g addGenericStrings_def addGenericOpts_props[OF d])
  qed
  have platform: "Generic (Sources (Target_addFile c info t)) = Generic (Sources t)
          \<and> Generic (Imports (Target_addFile c info t)) = Generic (Imports t)
          \<and> Generic (COpts (Target_addFile c info t)) = Generic (COpts t)
          \<and> Generic (CLinkOpts (Target_addFile c info t)) = Generic (CLinkOpts t)
          \<and> (\<forall>nm.
                platformGet (Sources (Target_addFile c info t)) nm
                  = platformGet (Sources t) nm
                    @ (if \<exists>tgs. map_of (Platforms c) nm = Some tgs \<and> checkConstraints info tgs
                       then [name info] else [])
              \<and> platformGet (Imports (Target_addFile c info t)) nm
                  = platformGet (Imports t) nm
                    @ (if \<exists>tgs. map_of (Platforms c) nm = Some tgs \<and> checkConstraints info tgs
                       then imports info else [])
              \<and> platformGet (COpts (Target_addFile c info t)) nm
                  = platformGet (COpts t) nm
                    @ (if \<exists>tgs. map_of (Platforms c) nm = Some tgs \<and> checkConstraints info tgs
                       then map opts
                              (filter (\<lambda>opt. taggedOpts.tags opt = []
                                         \<or> checkTags (taggedOpts.tags opt)
                                              (the (map_of (Platforms c) nm)))
                                 (copts info))
                       else [])
              \<and> platformGet (CLinkOpts (Target_addFile c info t)) nm
                  = platformGet (CLinkOpts t) nm
                    @ (if \<exists>tgs. map_of (Platforms c) nm = Some tgs \<and> checkConstraints info tgs
                       then map opts
                              (filter (\<lambda>opt. taggedOpts.tags opt = []
                                         \<or> checkTags (taggedOpts.tags opt)
                                              (the (map_of (Platforms c) nm)))
                                 (clinkopts info))
                       else []))"
    if "hasConstraints info \<and> \<not> checkConstraints info (GenericTags c)"
  proof -
    from that have p: "Target_addFile c info t = fold (addFilePlatform info) (Platforms c) t"
      by (simp add: Target_addFile_def)
    show ?thesis
      unfolding p using fold_addFilePlatform[OF d, of info t] by blast
  qed
  from generic platform show ?thesis
    by blast
qed

theorem Target_addFile_routing_witness:
  "wfMap (Platforms sampleConfig)
   \<and> hasConstraints gcFile \<and> checkConstraints gcFile (GenericTags sampleConfig)
   \<and> checkConstraints gcFile {''linux'', ''amd64'', ''gc''}
   \<and> checkConstraints gcFile {''darwin'', ''amd64'', ''gc''}
   \<and> Sources (Target_addFile sampleConfig gcFile emptyTarget)
       = \<lparr>Generic = [''a.go''], Platform = None\<rparr>
   \<and> \<not> hasConstraints optsFile
   \<and> Sources (Target_addFile sampleConfig optsFile emptyTarget)
       = \<lparr>Generic = [''a.go''], Platform = None\<rparr>
   \<and> Generic (COpts (Target_addFile sampleConfig optsFile emptyTarget)) = [''-O2'']
   \<and> platformGet (COpts (Target_addFile sampleConfig optsFile emptyTarget)) ''linux_amd64''
       = [''-DLINUX'']
   \<and> hasConstraints linuxFile \<and> \<not> checkConstraints linuxFile (GenericTags sampleConfig)
   \<and> Generic (Sources (Target_addFile sampleConfig linuxFile emptyTarget)) = []
   \<and> platformGet (Sources (Target_addFile sampleConfig linuxFile emptyTarget)) ''linux_amd64''
       = [''a_linux.go'']
   \<and> platformGet (Sources (Target_addFile sampleConfig linuxFile emptyTarget)) ''darwin_amd64''
       = []
   \<and> platformGet (Imports (Target_addFile sampleConfig linuxFile emptyTarget)) ''linux_amd64''
       = [''os'']
   \<and> platformGet (COpts (Target_addFile sampleConfig linuxFile emptyTarget)) ''linux_amd64''
       = [''-O2'']"
proof -
  have wf: "wfMap (Platforms sampleConfig)"
    by (simp add: wfMap_def sampleConfig_def)
  have un: "\<not> hasConstraints optsFile"
    by (simp add: hasConstraints_def optsFile_def emptyInfo_def)
  have gd: "checkConstraints gcFile {''darwin'', ''amd64'', ''gc''}"
    by code_simp
  have allp: "\<forall>(nm, tgs) \<in> set (Platforms sampleConfig). checkConstraints gcFile tgs"
    by (simp add: sampleConfig_def sample_constraints gd)
  have m: "map_of (Platforms sampleConfig) ''linux_amd64'' = Some {''linux'', ''amd64'', ''gc''}"
    "map_of (Platforms sampleConfig) ''darwin_amd64'' = Some {''darwin'', ''amd64'', ''gc''}"
    by (simp_all add: sampleConfig_def)
  have e: "platformGet emptyStrings nm = []" "Generic emptyStrings = []" for nm
    by (simp_all add: platformGet_def emptyStrings_def)
  have l: "name linuxFile = ''a_linux.go''" "imports linuxFile = [''os'']"
    "copts linuxFile = [\<lparr>taggedOpts.tags = ''darwin'', opts = ''-DDARWIN''\<rparr>,
                        \<lparr>taggedOpts.tags = [], opts = ''-O2''\<rparr>]"
    "name optsFile = ''a.go''" "name gcFile = ''a.go''"
    "copts optsFile = [\<lparr>taggedOpts.tags = ''linux'', opts = ''-DLINUX''\<rparr>,
                       \<lparr>taggedOpts.tags = [], opts = ''-O2''\<rparr>]"
    by (simp_all add: linuxFile_def optsFile_def gcFile_def emptyInfo_def)
  show ?thesis
    using wf un allp gd Target_addFile_routing [OF wf, of linuxFile emptyTarget]
      Target_addFile_routing [OF wf, of optsFile emptyTarget]
      Target_addFile_routing [OF wf, of gcFile emptyTarget]
    by (simp add: sample_constraints sample_checkTags m e l emptyTarget_def)
       (simp add: emptyStrings_def)
qed

text \<open>The claim as stated fails: a file with a constraint that the generic tags and every
  platform satisfy goes to the generic list, and not to the list of a platform; an option
  with tags of a file without constraint goes to the platforms its tags hold for, not to the
  generic list; and an option of a file routed to a platform is left out when its own tags
  fail for that platform.\<close>

theorem Target_addFile_constrained_generic:
  "hasConstraints gcFile
   \<and> Generic (Sources (Target_addFile sampleConfig gcFile emptyTarget)) = [''a.go'']
   \<and> map_of (Platforms sampleConfig) ''linux_amd64'' = Some {''linux'', ''amd64'', ''gc''}
   \<and> checkConstraints gcFile {''linux'', ''amd64'', ''gc''}
   \<and> platformGet (Sources (Target_addFile sampleConfig gcFile emptyTarget)) ''linux_amd64'' = []
   \<and> \<not> hasConstraints optsFile
   \<and> copts optsFile = [\<lparr>taggedOpts.tags = ''linux'', opts = ''-DLINUX''\<rparr>,
                        \<lparr>taggedOpts.tags = [], opts = ''-O2''\<rparr>]
   \<and> Generic (COpts (Target_addFile sampleConfig optsFile emptyTarget)) = [''-O2'']
   \<and> platformGet (COpts (Target_addFile sampleConfig optsFile emptyTarget)) ''linux_amd64''
       = [''-DLINUX'']
   \<and> hasConstraints linuxFile
   \<and> checkConstraints linuxFile {''linux'', ''amd64'', ''gc''}
   \<and> copts linuxFile = [\<lparr>taggedOpts.tags = ''darwin'', opts = ''-DDARWIN''\<rparr>,
                         \<lparr>taggedOpts.tags = [], opts = ''-O2''\<rparr>]
   \<and> platformGet (COpts (Target_addFile sampleConfig linuxFile emptyTarget)) ''linux_amd64''
       = [''-O2'']"
  by code_simp

text \<open>
  Claim C9. For every file record without constraints (the platform table a Go map), and
  for the compiler options and the linker options alike: the options without tags, and only
  they, are appended to the generic list; an option with tags is appended to the list of a
  platform exactly when the table has the platform and \<^verbatim>\<open>checkTags\<close> holds for the tags
  of the option and the tag set of the platform; the order of the options is kept.
\<close>

theorem Target_addFile_tagged_opts:
  assumes "wfMap (Platforms c)" and "\<not> hasConstraints info"
  shows "Generic (COpts (Target_addFile c info t))
           = Generic (COpts t) @ map opts (filter (\<lambda>opt. taggedOpts.tags opt = []) (copts info))
    \<and> Generic (CLinkOpts (Target_addFile c info t))
           = Generic (CLinkOpts t) @ map opts (filter (\<lambda>opt. taggedOpts.tags opt = []) (clinkopts info))
    \<and> (\<forall>nm. platformGet (COpts (Target_addFile c info t)) nm
           = platformGet (COpts t) nm
             @ map opts (filter (\<lambda>opt. taggedOpts.tags opt \<noteq> []
                    \<and> (\<exists>tgs. map_of (Platforms c) nm = Some tgs
                              \<and> checkTags (taggedOpts.tags opt) tgs))
                  (copts info)))
    \<and> (\<forall>nm. platformGet (CLinkOpts (Target_addFile c info t)) nm
           = platformGet (CLinkOpts t) nm
             @ map opts (filter (\<lambda>opt. taggedOpts.tags opt \<noteq> []
                    \<and> (\<exists>tgs. map_of (Platforms c) nm = Some tgs
                              \<and> checkTags (taggedOpts.tags opt) tgs))
                  (clinkopts info)))"
proof -
  from assms(1) have d: "distinct (map fst (Platforms c))"
    by (simp add: wfMap_def)
  from assms(2) show ?thesis
    by (simp add: Target_addFile_def addGenericOpts_props[OF d])
qed

theorem Target_addFile_tagged_opts_witness:
  "wfMap (Platforms sampleConfig) \<and> \<not> hasConstraints optsFile
   \<and> Generic (COpts (Target_addFile sampleConfig optsFile emptyTarget)) = [''-O2'']
   \<and> Generic (CLinkOpts (Target_addFile sampleConfig optsFile emptyTarget)) = []
   \<and> platformGet (COpts (Target_addFile sampleConfig optsFile emptyTarget)) ''linux_amd64''
       = [''-DLINUX'']
   \<and> platformGet (COpts (Target_addFile sampleConfig optsFile emptyTarget)) ''darwin_amd64'' = []
   \<and> platformGet (CLinkOpts (Target_addFile sampleConfig optsFile emptyTarget)) ''linux_amd64''
       = []
   \<and> platformGet (CLinkOpts (Target_addFile sampleConfig optsFile emptyTarget)) ''darwin_amd64''
       = [''-lfoo'']"
proof -
  have wf: "wfMap (Platforms sampleConfig)"
    by (simp add: wfMap_def sampleConfig_def)
  have un: "\<not> hasConstraints optsFile"
    by (simp add: hasConstraints_def optsFile_def emptyInfo_def)
  show ?thesis
    using wf un Target_addFile_tagged_opts [OF wf un, of emptyTarget]
    by (simp add: sampleConfig_def optsFile_def emptyInfo_def emptyTarget_def emptyStrings_def
        platformGet_def sample_checkTags)
qed

section \<open>Aggregation is independent of the order of the files\<close>

subsection \<open>A file appends its own contribution\<close>

lemma empty_props [simp]:
  "Generic emptyStrings = []" "platformGet emptyStrings k = []" "wfStrings emptyStrings"
  "Sources emptyTarget = emptyStrings" "Imports emptyTarget = emptyStrings"
  "COpts emptyTarget = emptyStrings" "CLinkOpts emptyTarget = emptyStrings"
  by (simp_all add: emptyStrings_def emptyTarget_def platformGet_def wfStrings_def)

lemma wfTarget_emptyTarget: "wfTarget emptyTarget"
  by (simp add: wfTarget_def)

lemma Target_addFile_append:
  assumes "wfMap (Platforms c)"
  shows "Generic (Sources (Target_addFile c x t))
           = Generic (Sources t) @ Generic (Sources (Target_addFile c x emptyTarget))
    \<and> Generic (Imports (Target_addFile c x t))
           = Generic (Imports t) @ Generic (Imports (Target_addFile c x emptyTarget))
    \<and> Generic (COpts (Target_addFile c x t))
           = Generic (COpts t) @ Generic (COpts (Target_addFile c x emptyTarget))
    \<and> Generic (CLinkOpts (Target_addFile c x t))
           = Generic (CLinkOpts t) @ Generic (CLinkOpts (Target_addFile c x emptyTarget))
    \<and> platformGet (Sources (Target_addFile c x t)) k
           = platformGet (Sources t) k @ platformGet (Sources (Target_addFile c x emptyTarget)) k
    \<and> platformGet (Imports (Target_addFile c x t)) k
           = platformGet (Imports t) k @ platformGet (Imports (Target_addFile c x emptyTarget)) k
    \<and> platformGet (COpts (Target_addFile c x t)) k
           = platformGet (COpts t) k @ platformGet (COpts (Target_addFile c x emptyTarget)) k
    \<and> platformGet (CLinkOpts (Target_addFile c x t)) k
           = platformGet (CLinkOpts t) k
             @ platformGet (CLinkOpts (Target_addFile c x emptyTarget)) k
    \<and> (wfTarget t \<longrightarrow> wfTarget (Target_addFile c x t))"
proof -
  from assms have d: "distinct (map fst (Platforms c))"
    by (simp add: wfMap_def)
  show ?thesis
  proof (cases "\<not> hasConstraints x \<or> checkConstraints x (GenericTags c)")
    case True
    then have g: "Target_addFile c x u
      = u\<lparr>Sources := addGenericStrings [name x] (Sources u),
          Imports := addGenericStrings (imports x) (Imports u),
          COpts := addGenericOpts (Platforms c) (copts x) (COpts u),
          CLinkOpts := addGenericOpts (Platforms c) (clinkopts x) (CLinkOpts u)\<rparr>" for u
      by (simp only: Target_addFile_def if_True)
    show ?thesis
      by (simp add: g addGenericOpts_props[OF d] wfTarget_def wfStrings_addGenericStrings)
  next
    case False
    then have p: "Target_addFile c x u = fold (addFilePlatform x) (Platforms c) u" for u
      by (simp only: Target_addFile_def if_False)
    show ?thesis
      using fold_addFilePlatform[OF d, of x t k] fold_addFilePlatform[OF d, of x emptyTarget k]
      by (simp add: p)
  qed
qed

lemma fold_cond_append:
  fixes V :: "'t \<Rightarrow> 'a list"
  assumes "\<And>x t. V (F x t) = V t @ K x"
  shows "V (fold (\<lambda>x t. if cond x then F x t else t) xs t)
         = V t @ concat (map K (filter cond xs))"
  by (induction xs arbitrary: t) (simp_all add: assms)

lemma fold_cond_invariant:
  assumes "\<And>x t. I t \<Longrightarrow> I (F x t)" and "I t"
  shows "I (fold (\<lambda>x t. if cond x then F x t else t) xs t)"
  using assms(2) by (induction xs arbitrary: t) (simp_all add: assms(1))

lemma fold_select:
  assumes "\<And>x p. sel (step x p) = g x (sel p)"
  shows "sel (fold step xs p) = fold g xs (sel p)"
  by (induction xs arbitrary: p) (simp_all add: assms)

subsection \<open>\<^verbatim>\<open>Clean\<close> sees the strings as sets\<close>

lemma platformGet_outside: "k \<notin> platformKeys A \<Longrightarrow> platformGet A k = []"
proof (cases "Platform A")
  case None
  then show ?thesis by (simp add: platformGet_def)
next
  case (Some m)
  assume "k \<notin> platformKeys A"
  with Some have "map_of m k = None"
    by (simp add: platformKeys_def map_of_eq_None_iff)
  with Some show ?thesis
    by (simp add: platformGet_def mapIndex_def)
qed

lemma platformKeys_Clean_total:
  assumes "wfStrings A"
  shows "platformKeys (Clean A) = {nm. \<not> set (platformGet A nm) \<subseteq> set (Generic A)}"
proof -
  have "nm \<in> platformKeys A" if "\<not> set (platformGet A nm) \<subseteq> set (Generic A)" for nm
  proof (rule ccontr)
    assume "nm \<notin> platformKeys A"
    then have "platformGet A nm = []"
      by (rule platformGet_outside)
    with that show False
      by simp
  qed
  then show ?thesis
    unfolding platformKeys_Clean[OF assms] by blast
qed

lemma map_of_mapIndex: "k \<in> fst ` set m \<Longrightarrow> map_of m k = Some (mapIndex m k)"
  by (cases "map_of m k") (auto simp: mapIndex_def map_of_eq_None_iff)

lemma sameStrings_Clean:
  assumes wf: "wfStrings A" "wfStrings B"
    and g: "set (Generic A) = set (Generic B)"
    and p: "\<And>k. set (platformGet A k) = set (platformGet B k)"
  shows "sameStrings (Clean A) (Clean B)"
proof -
  have gen: "Generic (Clean A) = Generic (Clean B)"
    by (simp add: Generic_Clean uniq_sort g)
  have get: "platformGet (Clean A) k = platformGet (Clean B) k" for k
    by (simp add: platformGet_Clean wf uniq_sort set_remove g p)
  have keys: "platformKeys (Clean A) = platformKeys (Clean B)"
    by (simp add: platformKeys_Clean_total wf g p)
  show ?thesis
  proof (cases "Platform (Clean A)")
    case None
    then have "platformKeys (Clean B) = {}"
      using keys by (simp add: Platform_Clean_None_iff)
    then have "Platform (Clean B) = None"
      by (simp add: Platform_Clean_None_iff)
    with None gen show ?thesis
      by (simp add: sameStrings_def)
  next
    case (Some m)
    then have "platformKeys (Clean B) \<noteq> {}"
      using keys Platform_Clean_None_iff[of A] by auto
    then obtain m' where Some': "Platform (Clean B) = Some m'"
      using Platform_Clean_None_iff[of B] by auto
    from keys Some Some' have k: "fst ` set m = fst ` set m'"
      by (simp add: platformKeys_def)
    have "map_of m k = map_of m' k" if "k \<in> fst ` set m" for k
    proof -
      from get[of k] Some Some' have "mapIndex m k = mapIndex m' k"
        by (simp add: platformGet_def)
      with that k show ?thesis
        by (simp add: map_of_mapIndex)
    qed
    then have "sameMap m m'"
      using k by (auto simp: sameMap_def)
    with Some Some' gen show ?thesis
      by (simp add: sameStrings_def)
  qed
qed

lemma sameTarget_Clean_fold:
  assumes c: "wfMap (Platforms c)" and t: "wfTarget t" and s: "set xs = set ys"
  shows "sameTarget
           (Target_Clean (fold (\<lambda>x t. if cond x then Target_addFile c x t else t) xs t))
           (Target_Clean (fold (\<lambda>x t. if cond x then Target_addFile c x t else t) ys t))"
proof -
  let ?f = "\<lambda>zs. fold (\<lambda>x t. if cond x then Target_addFile c x t else t) zs t"
  note a = Target_addFile_append[OF c]
  have wf: "wfTarget (?f zs)" for zs
    using a t by (intro fold_cond_invariant[where I = wfTarget]) blast+
  have eq: "set (V (?f xs)) = set (V (?f ys))"
    if "\<And>x t. V (Target_addFile c x t) = V t @ V (Target_addFile c x emptyTarget)"
    for V :: "Target \<Rightarrow> string list"
    unfolding fold_cond_append[of V "Target_addFile c" "\<lambda>x. V (Target_addFile c x emptyTarget)" cond,
        OF that]
    using s by simp
  have "sameStrings (Clean (Sources (?f xs))) (Clean (Sources (?f ys)))"
  proof (rule sameStrings_Clean)
    show "wfStrings (Sources (?f xs))" "wfStrings (Sources (?f ys))"
      using wf[of xs] wf[of ys] by (simp_all add: wfTarget_def)
    show "set (Generic (Sources (?f xs))) = set (Generic (Sources (?f ys)))"
      using a by (intro eq[of "\<lambda>t. Generic (Sources t)"]) blast
    show "set (platformGet (Sources (?f xs)) k) = set (platformGet (Sources (?f ys)) k)" for k
      using a[of _ _ k] by (intro eq[of "\<lambda>t. platformGet (Sources t) k"]) blast
  qed
  moreover have "sameStrings (Clean (Imports (?f xs))) (Clean (Imports (?f ys)))"
  proof (rule sameStrings_Clean)
    show "wfStrings (Imports (?f xs))" "wfStrings (Imports (?f ys))"
      using wf[of xs] wf[of ys] by (simp_all add: wfTarget_def)
    show "set (Generic (Imports (?f xs))) = set (Generic (Imports (?f ys)))"
      using a by (intro eq[of "\<lambda>t. Generic (Imports t)"]) blast
    show "set (platformGet (Imports (?f xs)) k) = set (platformGet (Imports (?f ys)) k)" for k
      using a[of _ _ k] by (intro eq[of "\<lambda>t. platformGet (Imports t) k"]) blast
  qed
  moreover have "sameStrings (Clean (COpts (?f xs))) (Clean (COpts (?f ys)))"
  proof (rule sameStrings_Clean)
    show "wfStrings (COpts (?f xs))" "wfStrings (COpts (?f ys))"
      using wf[of xs] wf[of ys] by (simp_all add: wfTarget_def)
    show "set (Generic (COpts (?f xs))) = set (Generic (COpts (?f ys)))"
      using a by (intro eq[of "\<lambda>t. Generic (COpts t)"]) blast
    show "set (platformGet (COpts (?f xs)) k) = set (platformGet (COpts (?f ys)) k)" for k
      using a[of _ _ k] by (intro eq[of "\<lambda>t. platformGet (COpts t) k"]) blast
  qed
  moreover have "sameStrings (Clean (CLinkOpts (?f xs))) (Clean (CLinkOpts (?f ys)))"
  proof (rule sameStrings_Clean)
    show "wfStrings (CLinkOpts (?f xs))" "wfStrings (CLinkOpts (?f ys))"
      using wf[of xs] wf[of ys] by (simp_all add: wfTarget_def)
    show "set (Generic (CLinkOpts (?f xs))) = set (Generic (CLinkOpts (?f ys)))"
      using a by (intro eq[of "\<lambda>t. Generic (CLinkOpts t)"]) blast
    show "set (platformGet (CLinkOpts (?f xs)) k) = set (platformGet (CLinkOpts (?f ys)) k)" for k
      using a[of _ _ k] by (intro eq[of "\<lambda>t. platformGet (CLinkOpts t) k"]) blast
  qed
  ultimately show ?thesis
    by (simp add: sameTarget_def Target_Clean_def)
qed

subsection \<open>The fields of the package after one file and after a list of files\<close>

lemma Package_addFile_targets:
  "XTest (fst (Package_addFile c x cgo p))
     = (if route cgo x = ToXTest then Target_addFile c x (XTest p) else XTest p)"
  "Test (fst (Package_addFile c x cgo p))
     = (if route cgo x = ToTest then Target_addFile c x (Test p) else Test p)"
  "CgoLibrary (fst (Package_addFile c x cgo p))
     = (if route cgo x = ToCgoLibrary then Target_addFile c x (CgoLibrary p) else CgoLibrary p)"
  "Library (fst (Package_addFile c x cgo p))
     = (if route cgo x = ToLibrary then Target_addFile c x (Library p) else Library p)"
  "Binary (fst (Package_addFile c x cgo p)) = Binary p"
  by (cases "category x"; simp add: Package_addFile_def route_def markPbGo_def)+

lemma Package_addFile_rest:
  "Protos (fst (Package_addFile c x cgo p))
     = Protos p @ (if route cgo x = ToProtos then [name x] else [])"
  "HasPbGo (fst (Package_addFile c x cgo p))
     \<longleftrightarrow> HasPbGo p \<or> (route cgo x \<noteq> Dropped \<and> route cgo x \<noteq> CgoInTest
                        \<and> HasSuffix (name x) ''.pb.go'')"
  "Name (fst (Package_addFile c x cgo p)) = Name p"
  "Dir (fst (Package_addFile c x cgo p)) = Dir p"
  "Rel (fst (Package_addFile c x cgo p)) = Rel p"
  "HasTestdata (fst (Package_addFile c x cgo p)) = HasTestdata p"
  by (cases "category x"; simp add: Package_addFile_def route_def markPbGo_def)+

lemma addFiles_targets:
  "XTest (addFiles c cgo xs p)
     = fold (\<lambda>x t. if route cgo x = ToXTest then Target_addFile c x t else t) xs (XTest p)"
  "Test (addFiles c cgo xs p)
     = fold (\<lambda>x t. if route cgo x = ToTest then Target_addFile c x t else t) xs (Test p)"
  "CgoLibrary (addFiles c cgo xs p)
     = fold (\<lambda>x t. if route cgo x = ToCgoLibrary then Target_addFile c x t else t) xs
         (CgoLibrary p)"
  "Library (addFiles c cgo xs p)
     = fold (\<lambda>x t. if route cgo x = ToLibrary then Target_addFile c x t else t) xs (Library p)"
  unfolding addFiles_def
  by (rule fold_select, simp add: Package_addFile_targets)+

lemma addFiles_rest:
  "Binary (addFiles c cgo xs p) = Binary p"
  "Protos (addFiles c cgo xs p)
     = Protos p @ map name (filter (\<lambda>x. route cgo x = ToProtos) xs)"
  "HasPbGo (addFiles c cgo xs p)
     \<longleftrightarrow> HasPbGo p \<or> (\<exists>x \<in> set xs. route cgo x \<noteq> Dropped \<and> route cgo x \<noteq> CgoInTest
                                     \<and> HasSuffix (name x) ''.pb.go'')"
  "Name (addFiles c cgo xs p) = Name p"
  "Dir (addFiles c cgo xs p) = Dir p"
  "Rel (addFiles c cgo xs p) = Rel p"
  "HasTestdata (addFiles c cgo xs p) = HasTestdata p"
  unfolding addFiles_def
  by (induction xs arbitrary: p; simp add: Package_addFile_targets Package_addFile_rest; blast?)+

lemma sameStrings_refl: "sameStrings A A"
  by (simp add: sameStrings_def sameMap_def split: option.splits)

lemma sameTarget_refl: "sameTarget t t"
  by (simp add: sameTarget_def sameStrings_refl)

lemma sample_wf: "wfMap (Platforms sampleConfig)" "wfPackage emptyPackage"
  by (simp_all add: wfMap_def sampleConfig_def wfPackage_def emptyPackage_def wfTarget_emptyTarget)

text \<open>
  Claim C6, as amended. For every list of file records and every permutation of it (the
  platform table a Go map, the starting package with Go maps in its targets, the empty
  package among them): adding the files with \<^verbatim>\<open>addFile\<close> in either order, skipping the
  files it rejects, and then running \<^verbatim>\<open>Clean\<close> on every \<^verbatim>\<open>PlatformStrings\<close> yields
  packages whose five targets are equal as Go values (equal generic lists, equal platform
  maps) and whose \<^verbatim>\<open>HasPbGo\<close>, \<^verbatim>\<open>HasTestdata\<close>, \<^verbatim>\<open>Name\<close>, \<^verbatim>\<open>Dir\<close> and
  \<^verbatim>\<open>Rel\<close> are equal; the two \<^verbatim>\<open>Protos\<close> lists hold the same names the same number of
  times.
\<close>

theorem addFiles_order_independent:
  assumes c: "wfMap (Platforms c)" and p: "wfPackage p" and perm: "mset xs = mset ys"
  shows "sameTarget (Library (Package_Clean (addFiles c cgo xs p)))
                    (Library (Package_Clean (addFiles c cgo ys p)))
    \<and> sameTarget (CgoLibrary (Package_Clean (addFiles c cgo xs p)))
                    (CgoLibrary (Package_Clean (addFiles c cgo ys p)))
    \<and> sameTarget (Binary (Package_Clean (addFiles c cgo xs p)))
                    (Binary (Package_Clean (addFiles c cgo ys p)))
    \<and> sameTarget (Test (Package_Clean (addFiles c cgo xs p)))
                    (Test (Package_Clean (addFiles c cgo ys p)))
    \<and> sameTarget (XTest (Package_Clean (addFiles c cgo xs p)))
                    (XTest (Package_Clean (addFiles c cgo ys p)))
    \<and> mset (Protos (Package_Clean (addFiles c cgo xs p)))
        = mset (Protos (Package_Clean (addFiles c cgo ys p)))
    \<and> HasPbGo (Package_Clean (addFiles c cgo xs p))
        = HasPbGo (Package_Clean (addFiles c cgo ys p))
    \<and> HasTestdata (Package_Clean (addFiles c cgo xs p))
        = HasTestdata (Package_Clean (addFiles c cgo ys p))
    \<and> Name (Package_Clean (addFiles c cgo xs p)) = Name (Package_Clean (addFiles c cgo ys p))
    \<and> Dir (Package_Clean (addFiles c cgo xs p)) = Dir (Package_Clean (addFiles c cgo ys p))
    \<and> Rel (Package_Clean (addFiles c cgo xs p)) = Rel (Package_Clean (addFiles c cgo ys p))"
proof -
  from perm have s: "set xs = set ys"
    by (rule mset_eq_setD)
  from p have wf: "wfTarget (Library p)" "wfTarget (CgoLibrary p)" "wfTarget (Test p)"
    "wfTarget (XTest p)"
    by (simp_all add: wfPackage_def)
  have clean: "Library (Package_Clean q) = Target_Clean (Library q)"
    "CgoLibrary (Package_Clean q) = Target_Clean (CgoLibrary q)"
    "Binary (Package_Clean q) = Target_Clean (Binary q)"
    "Test (Package_Clean q) = Target_Clean (Test q)"
    "XTest (Package_Clean q) = Target_Clean (XTest q)"
    "Protos (Package_Clean q) = Protos q" "HasPbGo (Package_Clean q) = HasPbGo q"
    "HasTestdata (Package_Clean q) = HasTestdata q" "Name (Package_Clean q) = Name q"
    "Dir (Package_Clean q) = Dir q" "Rel (Package_Clean q) = Rel q" for q
    by (simp_all add: Package_Clean_def)
  have "mset (filter (\<lambda>x. route cgo x = ToProtos) xs)
        = mset (filter (\<lambda>x. route cgo x = ToProtos) ys)"
    using perm by simp
  then have protos: "mset (map name (filter (\<lambda>x. route cgo x = ToProtos) xs))
        = mset (map name (filter (\<lambda>x. route cgo x = ToProtos) ys))"
    by (metis mset_map)
  show ?thesis
    unfolding clean addFiles_targets addFiles_rest
    using sameTarget_Clean_fold[OF c wf(1) s] sameTarget_Clean_fold[OF c wf(2) s]
      sameTarget_Clean_fold[OF c wf(3) s] sameTarget_Clean_fold[OF c wf(4) s]
      protos s
    by (simp add: sameTarget_refl)
qed

theorem addFiles_order_independent_witness:
  "wfMap (Platforms sampleConfig) \<and> wfPackage emptyPackage
   \<and> mset [linuxFile, gcFile, protoA, cFile] = mset [cFile, protoA, gcFile, linuxFile]
   \<and> sameTarget
        (Library (Package_Clean
           (addFiles sampleConfig True [linuxFile, gcFile, protoA, cFile] emptyPackage)))
        (Library (Package_Clean
           (addFiles sampleConfig True [cFile, protoA, gcFile, linuxFile] emptyPackage)))
   \<and> sameTarget
        (CgoLibrary (Package_Clean
           (addFiles sampleConfig True [linuxFile, gcFile, protoA, cFile] emptyPackage)))
        (CgoLibrary (Package_Clean
           (addFiles sampleConfig True [cFile, protoA, gcFile, linuxFile] emptyPackage)))
   \<and> HasPbGo (Package_Clean
           (addFiles sampleConfig True [linuxFile, gcFile, protoA, cFile] emptyPackage))
       = HasPbGo (Package_Clean
           (addFiles sampleConfig True [cFile, protoA, gcFile, linuxFile] emptyPackage))"
proof -
  have perm: "mset [linuxFile, gcFile, protoA, cFile] = mset [cFile, protoA, gcFile, linuxFile]"
    by (simp add: ac_simps)
  show ?thesis
    using perm sample_wf
      addFiles_order_independent [OF sample_wf perm, of True]
    by blast
qed

text \<open>The claim as stated fails: \<^verbatim>\<open>Protos\<close> is a plain list that \<^verbatim>\<open>addFile\<close>
  appends to and that no \<^verbatim>\<open>Clean\<close> sorts, so it keeps the order of processing.\<close>

theorem addFiles_Protos_order:
  "mset [protoA, protoB] = mset [protoB, protoA]
   \<and> Protos (Package_Clean (addFiles sampleConfig False [protoA, protoB] emptyPackage))
       = [''a.proto'', ''b.proto'']
   \<and> Protos (Package_Clean (addFiles sampleConfig False [protoB, protoA] emptyPackage))
       = [''b.proto'', ''a.proto'']
   \<and> \<not> samePackage
         (Package_Clean (addFiles sampleConfig False [protoA, protoB] emptyPackage))
         (Package_Clean (addFiles sampleConfig False [protoB, protoA] emptyPackage))"
proof -
  have r: "route False protoA = ToProtos" "route False protoB = ToProtos"
    by (simp_all add: route_def protoA_def protoB_def emptyInfo_def)
  have n: "name protoA = ''a.proto''" "name protoB = ''b.proto''"
    by (simp_all add: protoA_def protoB_def emptyInfo_def)
  have e: "Protos emptyPackage = []"
    by (simp add: emptyPackage_def)
  have a: "Protos (Package_Clean (addFiles sampleConfig False [protoA, protoB] emptyPackage))
       = [''a.proto'', ''b.proto'']"
    by (simp add: Package_Clean_def addFiles_rest r n e)
  have b: "Protos (Package_Clean (addFiles sampleConfig False [protoB, protoA] emptyPackage))
       = [''b.proto'', ''a.proto'']"
    by (simp add: Package_Clean_def addFiles_rest r n e)
  show ?thesis
    by (simp add: a b samePackage_def ac_simps)
qed

end
